theory Spec2Isabelle
  imports Complex_Main "HOL-Library.Product_Lexorder"
begin

section \<open>Python strings\<close>

text \<open>
  A Python \<open>str\<close> is a sequence of code points. The model uses \<open>string\<close>, a list of
  8-bit characters, read as the code points 0 to 255 (Latin-1); text with code points
  above 255 is outside the model. The character classes below are those of CPython for
  these 256 code points: \<open>str.isspace\<close> (also the class \<open>\s\<close> of \<open>re\<close> and what
  \<open>str.strip()\<close> removes), \<open>str.lower\<close>, the class \<open>\d\<close> and the class \<open>\w\<close>.
\<close>

definition isspace :: "char \<Rightarrow> bool" where
  "isspace c = (let n = (of_char c :: nat) in
     (9 \<le> n \<and> n \<le> 13) \<or> (28 \<le> n \<and> n \<le> 32) \<or> n = 133 \<or> n = 160)"

definition strip :: "string \<Rightarrow> string" where
  "strip s = rev (dropWhile isspace (rev (dropWhile isspace s)))"

definition lower_char :: "char \<Rightarrow> char" where
  "lower_char c = (let n = (of_char c :: nat) in
     if (65 \<le> n \<and> n \<le> 90) \<or> (192 \<le> n \<and> n \<le> 222 \<and> n \<noteq> 215)
     then char_of (n + 32) else c)"

definition lower :: "string \<Rightarrow> string" where
  "lower s = map lower_char s"

section \<open>AgentMessage (models/agent_message.py)\<close>

text \<open>
  The envelope passed between the agents. The payload type is a parameter: a data frame
  for the Retriever and the Researcher, a dictionary for the Writer and the Reviewer.
  \<open>data = None\<close> is Python's \<open>None\<close>. The \<open>metadata\<close> and \<open>timestamp\<close> fields are
  diagnostic only and no agent reads them back; they are left out.
\<close>

record 'a AgentMessage =
  agent :: string
  status :: string
  data :: "'a option"
  confidence :: rat

definition is_successful :: "'a AgentMessage \<Rightarrow> bool" where
  "is_successful m = (status m = ''success'' \<and> data m \<noteq> None)"

section \<open>Orchestrator: the Writer/Reviewer loop (agents/orchestrator.py)\<close>

text \<open>
  \<open>writer_agent\<close> and \<open>reviewer_agent\<close> call the language model, so what they return
  in iteration \<open>i\<close> is an input of the model: \<open>W i\<close> is the message (or \<open>None\<close>) the
  writer returns in the iteration with loop variable \<open>i\<close>, and \<open>R wm n\<close> is the score
  the reviewer returns for the writer message \<open>wm\<close> when called with \<open>iteration = n\<close>.

  The loop state holds the two variables of the source, \<open>best_writer_msg\<close> and
  \<open>best_score\<close>, and a counter \<open>iterations\<close> of the loop bodies entered, which the
  source does not keep and which only serves to state how often the loop ran.
\<close>

record 'a loop_state =
  best_writer_msg :: "'a AgentMessage option"
  best_score :: int
  iterations :: nat

definition init_state :: "'a loop_state" where
  "init_state = \<lparr>best_writer_msg = None, best_score = - 1, iterations = 0\<rparr>"

fun writer_reviewer_loop ::
  "(nat \<Rightarrow> 'a AgentMessage option) \<Rightarrow> ('a AgentMessage \<Rightarrow> nat \<Rightarrow> int) \<Rightarrow> int
     \<Rightarrow> nat list \<Rightarrow> 'a loop_state \<Rightarrow> 'a loop_state" where
  "writer_reviewer_loop W R quality_threshold [] st = st"
| "writer_reviewer_loop W R quality_threshold (i # rest) st =
     (let st1 = st\<lparr>iterations := Suc (iterations st)\<rparr> in
      case W i of
        None \<Rightarrow> writer_reviewer_loop W R quality_threshold rest st1
      | Some writer_msg \<Rightarrow>
          if \<not> is_successful writer_msg
          then writer_reviewer_loop W R quality_threshold rest st1
          else
            let score = R writer_msg (i + 1);
                st2 = (if score > best_score st1
                       then st1\<lparr>best_score := score, best_writer_msg := Some writer_msg\<rparr>
                       else st1)
            in if score \<ge> quality_threshold then st2
               else writer_reviewer_loop W R quality_threshold rest st2)"

text \<open>\<open>for i in range(int(max_iterations))\<close>: a negative bound gives the empty range.\<close>

definition orchestrator_loop ::
  "(nat \<Rightarrow> 'a AgentMessage option) \<Rightarrow> ('a AgentMessage \<Rightarrow> nat \<Rightarrow> int) \<Rightarrow> int \<Rightarrow> int
     \<Rightarrow> 'a loop_state" where
  "orchestrator_loop W R max_iterations quality_threshold =
     writer_reviewer_loop W R quality_threshold [0..<nat max_iterations] init_state"

text \<open>
  After the loop: \<open>None\<close> when no writer message was kept, otherwise the best writer
  message and \<open>quality_score = best_score\<close>.
\<close>

definition orchestrator_result ::
  "'a loop_state \<Rightarrow> ('a AgentMessage \<times> int) option" where
  "orchestrator_result st =
     (case best_writer_msg st of None \<Rightarrow> None | Some wm \<Rightarrow> Some (wm, best_score st))"

text \<open>
  The score of iteration \<open>i\<close> (loop variable, from 0): what the reviewer returns for the
  writer's message of that iteration, and \<open>None\<close> when the writer returned nothing or a
  message that is not successful, where the loop goes on to the next iteration without
  calling the reviewer.
\<close>

definition score_at ::
  "(nat \<Rightarrow> 'a AgentMessage option) \<Rightarrow> ('a AgentMessage \<Rightarrow> nat \<Rightarrow> int) \<Rightarrow> nat \<Rightarrow> int option" where
  "score_at W R i =
     (case W i of
        None \<Rightarrow> None
      | Some wm \<Rightarrow> if is_successful wm then Some (R wm (i + 1)) else None)"

text \<open>
  A writer stub whose every message is successful; a writer that returns nothing in the
  first iteration and a failed message in the second; and a reviewer stub that returns
  the scores of a list, the score for \<open>iteration = n\<close> being the \<open>n\<close>-th of the list.
\<close>

definition writer_stub :: "nat \<Rightarrow> string AgentMessage option" where
  "writer_stub i = Some \<lparr>agent = ''Writer'', status = ''success'',
     data = Some (''draft '' @ replicate i (CHR ''+'')), confidence = 85 / 100\<rparr>"

definition flaky_writer :: "nat \<Rightarrow> string AgentMessage option" where
  "flaky_writer i =
     (if i = 0 then None
      else if i = 1 then Some \<lparr>agent = ''Writer'', status = ''failed'', data = None, confidence = 0\<rparr>
      else writer_stub i)"

definition reviewer_stub :: "int list \<Rightarrow> string AgentMessage \<Rightarrow> nat \<Rightarrow> int" where
  "reviewer_stub scores wm n = (if 0 < n \<and> n \<le> length scores then scores ! (n - 1) else 7)"

text \<open>
  The invariant of the loop after \<open>k\<close> iterations: nothing is kept while no iteration
  had a score; afterwards the kept message and score are those of the first iteration
  among the \<open>k\<close> that reached the highest score.
\<close>

definition best_of ::
  "(nat \<Rightarrow> 'a AgentMessage option) \<Rightarrow> ('a AgentMessage \<Rightarrow> nat \<Rightarrow> int) \<Rightarrow> nat
     \<Rightarrow> 'a loop_state \<Rightarrow> bool" where
  "best_of W R k st =
     (if \<forall>i<k. score_at W R i = None
      then best_writer_msg st = None \<and> best_score st = - 1
      else (\<exists>j<k. \<exists>s. score_at W R j = Some s \<and> 0 \<le> s \<and>
              best_writer_msg st = W j \<and> best_score st = s \<and>
              (\<forall>i<k. \<forall>t. score_at W R i = Some t \<longrightarrow> t \<le> s) \<and>
              (\<forall>i<j. \<forall>t. score_at W R i = Some t \<longrightarrow> t < s)))"

section \<open>Python values\<close>

text \<open>
  The values that \<open>json.loads\<close> produces and that the agents pass around in dictionaries:
  \<open>None\<close>, booleans, integers, strings, lists and dictionaries with string keys (an
  association list whose keys are taken to be distinct; \<open>map_of\<close> is \<open>dict.get\<close>).
  Floating-point numbers are not modelled; in every branch below a number is only tested
  for being \<open>None\<close>, a list or a string, and rendered with \<open>str\<close>.
\<close>

datatype pyval =
    PNone
  | PBool bool
  | PInt int
  | PStr string
  | PList "pyval list"
  | PDict "(string \<times> pyval) list"

text \<open>Truth value of an object, as \<open>not x\<close> and \<open>x or y\<close> test it.\<close>

fun truthy :: "pyval \<Rightarrow> bool" where
  "truthy PNone = False"
| "truthy (PBool b) = b"
| "truthy (PInt i) = (i \<noteq> 0)"
| "truthy (PStr s) = (s \<noteq> [])"
| "truthy (PList xs) = (xs \<noteq> [])"
| "truthy (PDict kvs) = (kvs \<noteq> [])"

text \<open>\<open>str(x)\<close> and \<open>repr(x)\<close> of CPython on these values.\<close>

definition digit_char :: "nat \<Rightarrow> char" where
  "digit_char n = char_of (48 + n)"

fun show_nat :: "nat \<Rightarrow> string" where
  "show_nat n = (if n < 10 then [digit_char n] else show_nat (n div 10) @ [digit_char (n mod 10)])"

definition show_int :: "int \<Rightarrow> string" where
  "show_int i = (if i < 0 then CHR ''-'' # show_nat (nat (- i)) else show_nat (nat i))"

definition hex_char :: "nat \<Rightarrow> char" where
  "hex_char n = (if n < 10 then char_of (48 + n) else char_of (87 + n))"

definition repr_char :: "char \<Rightarrow> char \<Rightarrow> string" where
  "repr_char q c = (let n = (of_char c :: nat) in
     if c = q \<or> c = CHR 0x5C then [CHR 0x5C, c]
     else if n = 9 then [CHR 0x5C, CHR ''t'']
     else if n = 10 then [CHR 0x5C, CHR ''n'']
     else if n = 13 then [CHR 0x5C, CHR ''r'']
     else if n < 32 \<or> (127 \<le> n \<and> n \<le> 160) \<or> n = 173
       then [CHR 0x5C, CHR ''x'', hex_char (n div 16), hex_char (n mod 16)]
     else [c])"

definition repr_str :: "string \<Rightarrow> string" where
  "repr_str s = (let q = (if CHR 0x27 \<in> set s \<and> CHR 0x22 \<notin> set s then CHR 0x22 else CHR 0x27)
     in q # concat (map (repr_char q) s) @ [q])"

fun join :: "string \<Rightarrow> string list \<Rightarrow> string" where
  "join sep [] = []"
| "join sep [x] = x"
| "join sep (x # y # ys) = x @ sep @ join sep (y # ys)"

fun py_repr :: "pyval \<Rightarrow> string" where
  "py_repr PNone = ''None''"
| "py_repr (PBool b) = (if b then ''True'' else ''False'')"
| "py_repr (PInt i) = show_int i"
| "py_repr (PStr s) = repr_str s"
| "py_repr (PList xs) = ''['' @ join '', '' (map py_repr xs) @ '']''"
| "py_repr (PDict kvs) =
     ''{'' @ join '', '' (map (\<lambda>kv. repr_str (fst kv) @ '': '' @ py_repr (snd kv)) kvs) @ ''}''"

fun py_str :: "pyval \<Rightarrow> string" where
  "py_str (PStr s) = s"
| "py_str v = py_repr v"

section \<open>Reviewer: the score parser (agents/reviewer.py)\<close>

text \<open>The classes \<open>\d\<close> and \<open>\w\<close> of \<open>re\<close> on the code points 0 to 255.\<close>

definition isdigit :: "char \<Rightarrow> bool" where
  "isdigit c = (let n = (of_char c :: nat) in 48 \<le> n \<and> n \<le> 57)"

definition isword :: "char \<Rightarrow> bool" where
  "isword c = (let n = (of_char c :: nat) in
     (48 \<le> n \<and> n \<le> 57) \<or> (65 \<le> n \<and> n \<le> 90) \<or> n = 95 \<or> (97 \<le> n \<and> n \<le> 122) \<or>
     n = 170 \<or> n = 178 \<or> n = 179 \<or> n = 181 \<or> n = 185 \<or> n = 186 \<or>
     (188 \<le> n \<and> n \<le> 190) \<or> (192 \<le> n \<and> n \<le> 214) \<or> (216 \<le> n \<and> n \<le> 246) \<or>
     248 \<le> n)"

text \<open>\<open>int(m.group(1))\<close> on a group of decimal digits.\<close>

definition int_of_digits :: "string \<Rightarrow> int" where
  "int_of_digits ds = foldl (\<lambda>a c. 10 * a + (int (of_char c) - 48)) 0 ds"

text \<open>
  \<open>re.search\<close> tries the pattern at every position from left to right, the end of the
  text included, and returns the first match. \<open>re_search m prev t\<close> tries the matcher
  \<open>m\<close> at the start of \<open>t\<close> and then at each later position; the matcher gets the
  character before the position (\<open>None\<close> at the start of the text) for \<open>\b\<close>, and
  returns group 1 of the match.
\<close>

fun re_search :: "(char option \<Rightarrow> string \<Rightarrow> string option) \<Rightarrow> char option \<Rightarrow> string
    \<Rightarrow> string option" where
  "re_search m prev [] = m prev []"
| "re_search m prev (c # cs) =
     (case m prev (c # cs) of Some g \<Rightarrow> Some g | None \<Rightarrow> re_search m (Some c) cs)"

text \<open>A literal under \<open>re.IGNORECASE\<close>: the text starts with the letters of \<open>lit\<close> in
  either case.\<close>

definition starts_ci :: "string \<Rightarrow> string \<Rightarrow> bool" where
  "starts_ci lit t = (length lit \<le> length t \<and> lower (take (length lit) t) = lower lit)"

text \<open>\<open>(\d{1,2})\<close>: one digit and greedily a second one; the group and the rest.\<close>

fun digits12 :: "string \<Rightarrow> (string \<times> string) option" where
  "digits12 (d # e # r) =
     (if isdigit d then (if isdigit e then Some ([d, e], r) else Some ([d], e # r)) else None)"
| "digits12 [d] = (if isdigit d then Some ([d], []) else None)"
| "digits12 [] = None"

text \<open>
  \<open>OVERALL\s*[:\-]\s*(\d{1,2})\<close> with \<open>re.IGNORECASE\<close>, at one position. Each
  \<open>\s*\<close> is followed by a character that is not white space, so taking all the white
  space is the only way to match; the group is at the end of the pattern, so the greedy
  choice of two digits stands.
\<close>

definition match_overall :: "char option \<Rightarrow> string \<Rightarrow> string option" where
  "match_overall prev t =
     (if starts_ci ''OVERALL'' t then
        (case dropWhile isspace (drop 7 t) of
           [] \<Rightarrow> None
         | c # r \<Rightarrow>
             if c = CHR '':'' \<or> c = CHR ''-'' then
               (case digits12 (dropWhile isspace r) of
                  None \<Rightarrow> None
                | Some (g, _) \<Rightarrow> Some g)
             else None)
      else None)"

text \<open>
  \<open>(\d{1,2})\s*/\s*10\<close> at one position. When two digits are taken and the rest fails,
  the retry with one digit fails too: the next character is then a digit, neither white
  space nor the slash.
\<close>

definition match_out_of_ten :: "char option \<Rightarrow> string \<Rightarrow> string option" where
  "match_out_of_ten prev t =
     (case digits12 t of
        None \<Rightarrow> None
      | Some (g, r) \<Rightarrow>
          (case dropWhile isspace r of
             [] \<Rightarrow> None
           | c # r2 \<Rightarrow>
               if c = CHR ''/'' \<and> take 2 (dropWhile isspace r2) = ''10'' then Some g else None))"

text \<open>\<open>\b\<close>: exactly one of the characters before and after the position is a word
  character; the missing character at either end of the text is not one.\<close>

definition word_boundary :: "char option \<Rightarrow> string \<Rightarrow> bool" where
  "word_boundary prev t =
     ((case prev of None \<Rightarrow> False | Some p \<Rightarrow> isword p) \<noteq>
      (case t of [] \<Rightarrow> False | c # _ \<Rightarrow> isword c))"

text \<open>\<open>\b(10|[1-9])\b\<close> at one position: the alternative \<open>10\<close> first, then a single
  digit from 1 to 9.\<close>

definition match_standalone :: "char option \<Rightarrow> string \<Rightarrow> string option" where
  "match_standalone prev t =
     (if word_boundary prev t then
        (if take 2 t = ''10'' \<and> word_boundary (Some CHR ''0'') (drop 2 t) then Some ''10''
         else
           (case t of
              [] \<Rightarrow> None
            | d # r \<Rightarrow>
                if isdigit d \<and> d \<noteq> CHR ''0'' \<and> word_boundary (Some d) r then Some [d]
                else None))
      else None)"

definition clamp_score :: "int \<Rightarrow> int" where
  "clamp_score val = max 1 (min 10 val)"

text \<open>\<open>_parse_score\<close>. The argument is \<open>None\<close> when the model call failed.\<close>

definition parse_score :: "string option \<Rightarrow> int" where
  "parse_score evaluation_text =
     (case evaluation_text of
        None \<Rightarrow> 7
      | Some e \<Rightarrow>
          if e = [] then 7
          else
            let text = strip e in
            (case re_search match_overall None text of
               Some g \<Rightarrow> clamp_score (int_of_digits g)
             | None \<Rightarrow>
                 (case re_search match_out_of_ten None text of
                    Some g \<Rightarrow> clamp_score (int_of_digits g)
                  | None \<Rightarrow>
                      (case re_search match_standalone None text of
                         Some g \<Rightarrow> clamp_score (int_of_digits g)
                       | None \<Rightarrow> 7))))"

section \<open>Reviewer: the agent (agents/reviewer.py)\<close>

text \<open>
  \<open>_extract_text\<close>. The writer's payload is a Python value; \<open>data = None\<close> of the
  message is Python's \<open>None\<close>.
\<close>

definition extract_text :: "pyval AgentMessage option \<Rightarrow> string" where
  "extract_text writer_msg =
     (case writer_msg of
        None \<Rightarrow> []
      | Some wm \<Rightarrow>
          if \<not> is_successful wm then []
          else
            (case data wm of
               None \<Rightarrow> []
             | Some d \<Rightarrow>
                 (case d of
                    PDict kvs \<Rightarrow>
                      (case map_of kvs ''recommendation'' of
                         Some v \<Rightarrow> strip (py_str (if truthy v then v else PStr []))
                       | None \<Rightarrow> strip (py_str d))
                  | _ \<Rightarrow> strip (py_str d))))"

text \<open>The prompt of the review, an f-string over the query and the recommendation.\<close>

definition unlines :: "string list \<Rightarrow> string" where
  "unlines ls = concat (map (\<lambda>l. l @ [CHR 0x0A]) ls)"

definition review_prompt :: "string \<Rightarrow> string \<Rightarrow> string" where
  "review_prompt uq recommendation_text = unlines
     [''You are a strict QA reviewer for restaurant recommendations.'',
      [],
      ''USER QUERY:'',
      uq,
      [],
      ''RECOMMENDATION:'',
      recommendation_text,
      [],
      ''Score each dimension from 1 to 10:'',
      ''- RELEVANCE (matches query + filters)'',
      ''- SPECIFICITY (uses concrete restaurant details)'',
      ''- CLARITY (easy to read)'',
      ''- HONESTY (mentions tradeoffs/uncertainty)'',
      ''- ACTIONABILITY (helps user decide)'',
      [],
      ''Return in this format ONLY:'',
      [],
      ''RELEVANCE: x'',
      ''SPECIFICITY: x'',
      ''CLARITY: x'',
      ''HONESTY: x'',
      ''ACTIONABILITY: x'',
      ''OVERALL: x'',
      ''FEEDBACK: <one short paragraph of improvements>'']"

text \<open>
  \<open>FEEDBACK\s*:\s*(.*)\<close> with \<open>re.IGNORECASE | re.DOTALL\<close> at one position: the group
  is the rest of the text after the white space that follows the colon.
\<close>

definition match_feedback :: "char option \<Rightarrow> string \<Rightarrow> string option" where
  "match_feedback prev t =
     (if starts_ci ''FEEDBACK'' t then
        (case dropWhile isspace (drop 8 t) of
           [] \<Rightarrow> None
         | c # r \<Rightarrow> if c = CHR '':'' then Some (dropWhile isspace r) else None)
      else None)"

text \<open>
  \<open>reviewer_agent\<close>. The language model is the parameter \<open>call_cortex\<close>, from the prompt
  to the response (\<open>None\<close> when the call fails); the result records in \<open>prompts\<close> the
  prompts sent to it, in order. The four other fields are the tuple the source returns.
  The calls that only draw the status in the user interface are left out, and with them
  the parameter \<open>iteration\<close>, which only they use.
\<close>

record review_result =
  review_msg :: "pyval AgentMessage"
  score :: int
  feedback :: string
  raw_eval :: "string option"
  prompts :: "string list"

definition reviewer_agent ::
  "(string \<Rightarrow> string option) \<Rightarrow> pyval AgentMessage option \<Rightarrow> string option \<Rightarrow> review_result" where
  "reviewer_agent call_cortex writer_msg user_query =
     (if (case writer_msg of None \<Rightarrow> True | Some wm \<Rightarrow> \<not> is_successful wm) then
        \<lparr>review_msg = \<lparr>agent = ''Reviewer'', status = ''failed'', data = None, confidence = 0\<rparr>,
         score = 0, feedback = ''Writer output missing.'', raw_eval = Some [], prompts = []\<rparr>
      else
        let recommendation_text = extract_text writer_msg in
        if recommendation_text = [] then
          \<lparr>review_msg = \<lparr>agent = ''Reviewer'', status = ''failed'', data = None, confidence = 0\<rparr>,
           score = 0, feedback = ''Empty recommendation text.'', raw_eval = Some [], prompts = []\<rparr>
        else
          let uq0 = strip (case user_query of None \<Rightarrow> [] | Some q \<Rightarrow> q);
              uq = (if uq0 = [] then ''N/A (not provided)'' else uq0);
              prompt = review_prompt uq recommendation_text;
              raw = call_cortex prompt;
              sc = parse_score raw;
              fb = (case raw of
                      None \<Rightarrow> []
                    | Some r \<Rightarrow>
                        if r = [] then []
                        else (case re_search match_feedback None r of
                                None \<Rightarrow> []
                              | Some g \<Rightarrow> strip g));
              st = (if sc \<ge> 8 then ''success'' else ''partial'');
              conf = (if sc \<ge> 8 then 9 / 10 else 7 / 10)
          in
          \<lparr>review_msg = \<lparr>agent = ''Reviewer'', status = st,
             data = Some (PDict [(''score'', PInt sc), (''feedback'', PStr fb),
               (''raw_evaluation'', (case raw of None \<Rightarrow> PNone | Some r \<Rightarrow> PStr r))]),
             confidence = conf\<rparr>,
           score = sc, feedback = fb, raw_eval = raw, prompts = [prompt]\<rparr>)"


section \<open>Filter normalisation (agents/orchestrator.py, agents/researcher.py)\<close>

text \<open>\<open>d.get(k)\<close>: the value under the key, \<open>None\<close> when the key is missing.\<close>

definition dict_get :: "(string \<times> pyval) list \<Rightarrow> string \<Rightarrow> pyval" where
  "dict_get d k = (case map_of d k of None \<Rightarrow> PNone | Some v \<Rightarrow> v)"

text \<open>\<open>d.get(k, d.get(k2))\<close>: the value under \<open>k\<close> when the key is present, whatever the
  value is, and otherwise the value under \<open>k2\<close>.\<close>

definition dict_get_or :: "(string \<times> pyval) list \<Rightarrow> string \<Rightarrow> string \<Rightarrow> pyval" where
  "dict_get_or d k k2 = (case map_of d k of None \<Rightarrow> dict_get d k2 | Some v \<Rightarrow> v)"

text \<open>
  \<open>_ensure_list\<close>. Both modules define it, with the same body line by line; the branches
  are in the order of the source: \<open>None\<close>, a list, a string, anything else.
\<close>

fun ensure_list :: "pyval \<Rightarrow> string list" where
  "ensure_list PNone = []"
| "ensure_list (PList xs) =
     map (\<lambda>v. lower (strip (py_str v))) (filter (\<lambda>v. strip (py_str v) \<noteq> []) xs)"
| "ensure_list (PStr x) = (let s = strip x in if s \<noteq> [] then [lower s] else [])"
| "ensure_list x = [lower (strip (py_str x))]"

text \<open>A list of strings as a Python value, and the five-slot dictionary both
  normalisers return.\<close>

definition str_list :: "string list \<Rightarrow> pyval" where
  "str_list ts = PList (map PStr ts)"

definition filter_set ::
  "string list \<Rightarrow> string list \<Rightarrow> string list \<Rightarrow> string list \<Rightarrow> string list
     \<Rightarrow> (string \<times> pyval) list" where
  "filter_set dietary meal_time accessibility service_type special_needs =
     [(''dietary'', str_list dietary),
      (''meal_time'', str_list meal_time),
      (''accessibility'', str_list accessibility),
      (''service_type'', str_list service_type),
      (''special_needs'', str_list special_needs)]"

text \<open>\<open>_normalize_filters\<close> of the orchestrator. \<open>filters or {}\<close> turns \<open>None\<close> into the
  empty dictionary.\<close>

definition normalize_filters :: "(string \<times> pyval) list option \<Rightarrow> (string \<times> pyval) list" where
  "normalize_filters filters =
     (let f = (case filters of None \<Rightarrow> [] | Some d \<Rightarrow> d);
          service_val = dict_get_or f ''service_type'' ''service'';
          special_val = dict_get_or f ''special_needs'' ''special''
      in filter_set
           (ensure_list (dict_get f ''dietary''))
           (ensure_list (dict_get f ''meal_time''))
           (ensure_list (dict_get f ''accessibility''))
           (ensure_list service_val)
           (ensure_list special_val))"

text \<open>\<open>_normalize_attribute_filters\<close> of the researcher. \<open>not attribute_filters\<close> holds
  for \<open>None\<close> and for the empty dictionary.\<close>

definition normalize_attribute_filters ::
  "(string \<times> pyval) list option \<Rightarrow> (string \<times> pyval) list" where
  "normalize_attribute_filters attribute_filters =
     (case attribute_filters of
        None \<Rightarrow> filter_set [] [] [] [] []
      | Some f \<Rightarrow>
          if f = [] then filter_set [] [] [] [] []
          else
            let service_val = dict_get_or f ''service_type'' ''service'';
                special_val = dict_get_or f ''special_needs'' ''special'';
                service_type0 = ensure_list service_val;
                special_needs0 = ensure_list special_val;
                service_type1 =
                  (if map_of f ''service'' \<noteq> None \<and> service_type0 = []
                   then ensure_list (dict_get f ''service'') else service_type0);
                special_needs1 =
                  (if map_of f ''special'' \<noteq> None \<and> special_needs0 = []
                   then ensure_list (dict_get f ''special'') else special_needs0)
            in filter_set
                 (ensure_list (dict_get f ''dietary''))
                 (ensure_list (dict_get f ''meal_time''))
                 (ensure_list (dict_get f ''accessibility''))
                 service_type1
                 special_needs1)"

text \<open>A token of a FilterSet: not empty, without white space at either end, and in
  lower case. A well-formed FilterSet has the five slots, each a list of tokens.\<close>

definition token_ok :: "string \<Rightarrow> bool" where
  "token_ok t = (t \<noteq> [] \<and> strip t = t \<and> lower t = t)"

definition well_formed :: "(string \<times> pyval) list \<Rightarrow> bool" where
  "well_formed d =
     (\<exists>a b c e f. d = filter_set a b c e f \<and>
        list_all token_ok a \<and> list_all token_ok b \<and> list_all token_ok c \<and>
        list_all token_ok e \<and> list_all token_ok f)"


section \<open>Query analyser (utils/analyst_clean.py)\<close>

text \<open>Exceptions of the Python code, as values.\<close>

datatype py_error = AttributeError | TypeError | OverflowError



text \<open>\<open>_clean_json\<close>: the text between the first code fence and the next one, if there is
  a fence. \<open>find_sub sep t\<close> splits \<open>t\<close> at the first occurrence of \<open>sep\<close>.\<close>

fun find_sub :: "string \<Rightarrow> string \<Rightarrow> (string \<times> string) option" where
  "find_sub sep [] = (if sep = [] then Some ([], []) else None)"
| "find_sub sep (c # cs) =
     (if take (length sep) (c # cs) = sep then Some ([], drop (length sep) (c # cs))
      else (case find_sub sep cs of None \<Rightarrow> None | Some (b, a) \<Rightarrow> Some (c # b, a)))"

definition fence :: string where
  "fence = [CHR 0x60, CHR 0x60, CHR 0x60]"

definition before_fence :: "string \<Rightarrow> string" where
  "before_fence r = (case find_sub fence r of None \<Rightarrow> r | Some (b, _) \<Rightarrow> b)"

definition clean_json :: "string \<Rightarrow> string" where
  "clean_json text =
     (if text = [] then []
      else
        let t = strip text in
        strip (case find_sub (fence @ ''json'') t of
                 Some (_, r) \<Rightarrow> before_fence r
               | None \<Rightarrow>
                   (case find_sub fence t of
                      Some (_, r) \<Rightarrow> before_fence r
                    | None \<Rightarrow> t)))"







fun is_str :: "pyval \<Rightarrow> bool" where
  "is_str (PStr _) = True"
| "is_str _ = False"








text \<open>
  Two responses of the model, as texts, and a \<open>json.loads\<close> that knows them:
  \<^verbatim>\<open>{"filters": {"dietary": "Vegan"}}\<close> and
  \<^verbatim>\<open>{"filters": {"service": ["Outdoor "]}}\<close>.
\<close>

definition quoted :: "string \<Rightarrow> string" where
  "quoted s = CHR 0x22 # s @ [CHR 0x22]"

definition vegan_response :: string where
  "vegan_response =
     ''{'' @ quoted ''filters'' @ '': {'' @ quoted ''dietary'' @ '': '' @ quoted ''Vegan'' @ ''}}''"

definition legacy_response :: string where
  "legacy_response =
     ''{'' @ quoted ''filters'' @ '': {'' @ quoted ''service'' @ '': ['' @ quoted ''Outdoor '' @ '']}}''"



section \<open>Geocoding (utils/geo_utils.py, config.py)\<close>

text \<open>
  \<open>BOSTON_NEIGHBORHOODS\<close> in the order of the source (a dictionary is iterated in
  insertion order) and the default coordinates. A coordinate is the decimal literal of
  the source, as a rational number.
\<close>

definition BOSTON_NEIGHBORHOODS :: "(string \<times> rat \<times> rat) list" where
  "BOSTON_NEIGHBORHOODS =
     [(''jamaica plain'', 423099 / 10000, - 711111 / 10000),
      (''centre street'', 423099 / 10000, - 711111 / 10000),
      (''center street'', 423099 / 10000, - 711111 / 10000),
      (''roxbury'', 423317 / 10000, - 710828 / 10000),
      (''dorchester'', 422876 / 10000, - 710662 / 10000),
      (''south end'', 423417 / 10000, - 710719 / 10000),
      (''north end'', 423647 / 10000, - 710542 / 10000),
      (''back bay'', 423503 / 10000, - 710810 / 10000),
      (''allston'', 423528 / 10000, - 711319 / 10000),
      (''brighton'', 423486 / 10000, - 711656 / 10000),
      (''charlestown'', 423782 / 10000, - 710602 / 10000),
      (''cambridge'', 423736 / 10000, - 711097 / 10000),
      (''somerville'', 423876 / 10000, - 710995 / 10000)]"

definition DEFAULT_BOSTON_LAT :: rat where
  "DEFAULT_BOSTON_LAT = 423601 / 10000"

definition DEFAULT_BOSTON_LON :: rat where
  "DEFAULT_BOSTON_LON = - 710589 / 10000"

text \<open>\<open>a in b\<close> on strings: \<open>a\<close> occurs in \<open>b\<close>.\<close>

definition contains :: "string \<Rightarrow> string \<Rightarrow> bool" where
  "contains b a = (find_sub a b \<noteq> None)"

record geo_result =
  latitude :: rat
  longitude :: rat
  name :: string

text \<open>
  \<open>geocode_location\<close>. The result is optional, as every Python result may be \<open>None\<close>;
  both \<open>return\<close> statements of the source return a dictionary.
\<close>

definition geocode_location :: "string \<Rightarrow> geo_result option" where
  "geocode_location location_name =
     (let location_lower = lower location_name in
      case find (\<lambda>(neighborhood, coords). contains location_lower neighborhood)
             BOSTON_NEIGHBORHOODS of
        Some (neighborhood, lat, lon) \<Rightarrow>
          Some \<lparr>latitude = lat, longitude = lon, name = location_name\<rparr>
      | None \<Rightarrow>
          Some \<lparr>latitude = DEFAULT_BOSTON_LAT, longitude = DEFAULT_BOSTON_LON,
                name = location_name\<rparr>)"

text \<open>A place name matches a known neighbourhood when its lower-case form contains one
  of the keys of the table.\<close>

definition known_neighborhood :: "string \<Rightarrow> bool" where
  "known_neighborhood location_name =
     list_ex (\<lambda>(neighborhood, coords). contains (lower location_name) neighborhood)
       BOSTON_NEIGHBORHOODS"

section \<open>Retriever: text interpolated into the queries (agents/retriever.py)\<close>

text \<open>
  The single quote, and \<open>s.replace("'", "''")\<close>, the escape of a quote inside an SQL
  string literal.
\<close>

definition sq :: char where
  "sq = CHR 0x27"

definition replace_quote :: "string \<Rightarrow> string" where
  "replace_quote s = concat (map (\<lambda>c. if c = sq then [sq, sq] else [c]) s)"

text \<open>
  The text put between the quotes of the three string literals that the retriever builds
  from its arguments: the user's query in \<open>embed_expr\<close>, the location name in
  \<open>city_exact\<close> and \<open>neighborhood_like\<close> (before \<open>title()\<close>, which only changes the case of
  letters), and the cuisine in \<open>cuisine_condition\<close>. An f-string renders a value with
  \<open>str\<close>.
\<close>

definition query_literal :: "string \<Rightarrow> string" where
  "query_literal user_query = replace_quote user_query"

definition location_literal :: "string \<Rightarrow> string" where
  "location_literal location_name = strip (replace_quote location_name)"

definition cuisine_literal :: "pyval \<Rightarrow> string" where
  "cuisine_literal cuisine = py_str cuisine"

text \<open>\<open>cuisine_condition\<close>: empty unless the cuisine is a true value.\<close>

definition cuisine_condition :: "pyval \<Rightarrow> string" where
  "cuisine_condition cuisine =
     (if truthy cuisine then ''AND PRIMARY_CUISINE = '' @ [sq] @ cuisine_literal cuisine @ [sq]
      else [])"

text \<open>\<open>embed_expr\<close>, the expression that holds the user's query.\<close>

definition embed_expr :: "string \<Rightarrow> string" where
  "embed_expr user_query = join [CHR 0x0A]
     ['''',
      ''        VECTOR_COSINE_SIMILARITY('',
      ''            DESCRIPTION_EMBEDDING,'',
      ''            SNOWFLAKE.CORTEX.EMBED_TEXT_768('' @ [sq] @ ''snowflake-arctic-embed-m'' @ [sq]
        @ '', '' @ [sq] @ query_literal user_query @ [sq] @ '')'',
      ''        )'',
      ''        '']"

text \<open>
  The content of an SQL string literal is escaped when every single quote in it is one of
  a pair: read from the left, a quote is followed by a second quote.
\<close>

fun quotes_escaped :: "string \<Rightarrow> bool" where
  "quotes_escaped [] = True"
| "quotes_escaped [c] = (c \<noteq> sq)"
| "quotes_escaped (c # d # r) =
     (if c = sq then d = sq \<and> quotes_escaped r else quotes_escaped (d # r))"

text \<open>A cuisine value with a quote in it: \<open>O'Brien\<close>.\<close>

definition obrien :: string where
  "obrien = ''O'' @ [sq] @ ''Brien''"


section \<open>Candidate sets (pandas data frames)\<close>

text \<open>
  A data frame is its list of column names and its rows, in order. A row holds what the
  agents read: the identity, the three numeric columns (\<open>None\<close> is SQL \<open>NULL\<close>, which
  pandas shows as \<open>NaN\<close>) and the boolean attribute columns by name. The cells of the
  other columns are never read by the code modelled here; only their names are kept, in
  \<open>columns\<close>. Numbers are rationals: the code only compares them.
\<close>

record row =
  RESTAURANT_ID :: string
  PRICE_LEVEL :: "rat option"
  SAFETY_SCORE :: "rat option"
  OVERALL_SCORE :: "rat option"
  flags :: "string \<Rightarrow> bool option"

record frame =
  columns :: "string list"
  rows :: "row list"

text \<open>\<open>df[mask]\<close>: the rows that satisfy the mask, in their order.\<close>

definition keep :: "(row \<Rightarrow> bool) \<Rightarrow> frame \<Rightarrow> frame" where
  "keep P df = df\<lparr>rows := filter P (rows df)\<rparr>"

text \<open>\<open>_safe_len\<close> of the orchestrator, on the payload of a message.\<close>

definition safe_len :: "frame option \<Rightarrow> nat" where
  "safe_len df = (case df of None \<Rightarrow> 0 | Some d \<Rightarrow> length (rows d))"

text \<open>
  \<open>df.sort_values(col)\<close> with missing values last, on the key that \<open>key\<close> reads from a
  row. pandas does not promise an order among rows with equal keys; the model keeps
  their order, and nothing below depends on it.
\<close>

definition sort_values :: "(row \<Rightarrow> rat option) \<Rightarrow> row list \<Rightarrow> row list" where
  "sort_values key rs =
     sort_key (\<lambda>r. case key r of None \<Rightarrow> (1::nat, 0::rat) | Some x \<Rightarrow> (0, x)) rs"

section \<open>Researcher (agents/researcher.py)\<close>

text \<open>
  \<open>int(x)\<close>: an integer is itself, a boolean is 0 or 1, a string is parsed (white space
  around, an optional sign, decimal digits with single underscores between them); any
  other value raises, which \<open>None\<close> stands for. The white space that \<open>int\<close> accepts is
  not all of \<open>str.isspace\<close>.
\<close>

definition int_space :: "char \<Rightarrow> bool" where
  "int_space c = (let n = (of_char c :: nat) in (9 \<le> n \<and> n \<le> 13) \<or> n = 32 \<or> n = 133 \<or> n = 160)"

fun digit_groups :: "string \<Rightarrow> bool" where
  "digit_groups [] = False"
| "digit_groups [d] = isdigit d"
| "digit_groups (d # e # r) =
     (isdigit d \<and> (if e = CHR ''_'' then r \<noteq> [] \<and> isdigit (hd r) \<and> digit_groups r
                   else digit_groups (e # r)))"

definition int_of_str :: "string \<Rightarrow> int option" where
  "int_of_str s =
     (let t = rev (dropWhile int_space (rev (dropWhile int_space s)));
          neg = (t \<noteq> [] \<and> hd t = CHR ''-'');
          body = (if t \<noteq> [] \<and> (hd t = CHR ''-'' \<or> hd t = CHR ''+'') then tl t else t)
      in if digit_groups body
         then Some ((if neg then - 1 else 1) * int_of_digits (filter (\<lambda>c. c \<noteq> CHR ''_'') body))
         else None)"

fun py_int :: "pyval \<Rightarrow> int option" where
  "py_int (PInt n) = Some n"
| "py_int (PBool b) = Some (if b then 1 else 0)"
| "py_int (PStr s) = int_of_str s"
| "py_int _ = None"

text \<open>
  The price filter. It runs when \<open>max_price\<close> is not the string \<open>Any\<close> and the column
  exists; when \<open>int(max_price)\<close> raises, the \<open>except\<close> leaves the frame as it is.
  \<open>pd.to_numeric(..., errors="coerce") <= m\<close> is false on a missing price. (An integer
  beyond 64 bits is outside the model.)
\<close>

definition price_filter :: "pyval \<Rightarrow> frame \<Rightarrow> frame" where
  "price_filter max_price results_df =
     (if max_price \<noteq> PStr ''Any'' \<and> ''PRICE_LEVEL'' \<in> set (columns results_df) then
        (case py_int max_price of
           None \<Rightarrow> results_df
         | Some max_price_int \<Rightarrow>
             keep (\<lambda>r. case PRICE_LEVEL r of None \<Rightarrow> False | Some p \<Rightarrow> p \<le> of_int max_price_int)
               results_df)
      else results_df)"

text \<open>The safety filter, for \<open>min_safety > 0\<close>.\<close>

definition safety_filter :: "int \<Rightarrow> frame \<Rightarrow> frame" where
  "safety_filter min_safety results_df =
     (if min_safety \<noteq> 0 \<and> min_safety > 0 \<and> ''SAFETY_SCORE'' \<in> set (columns results_df) then
        keep (\<lambda>r. case SAFETY_SCORE r of None \<Rightarrow> False | Some s \<Rightarrow> s \<ge> of_int min_safety)
          results_df
      else results_df)"

text \<open>
  One attribute filter: when a token of the slot asks for it and the column exists, keep
  the rows whose flag is \<open>True\<close> (\<open>df[col] == True\<close> is false on a missing value).
\<close>

definition flag_filter :: "bool \<Rightarrow> string \<Rightarrow> frame \<Rightarrow> frame" where
  "flag_filter wanted col results_df =
     (if wanted \<and> col \<in> set (columns results_df)
      then keep (\<lambda>r. flags r col = Some True) results_df else results_df)"

text \<open>\<open>f[key]\<close> of the normalised filters: the list of tokens of a slot.\<close>

definition tokens :: "(string \<times> pyval) list \<Rightarrow> string \<Rightarrow> string list" where
  "tokens f key = (case dict_get f key of PList xs \<Rightarrow> map py_str xs | _ \<Rightarrow> [])"

text \<open>The attribute filters, in the order of the source.\<close>

definition attribute_filter :: "(string \<times> pyval) list option \<Rightarrow> frame \<Rightarrow> frame" where
  "attribute_filter attribute_filters results_df =
     (let f = normalize_attribute_filters attribute_filters;
          dietary = tokens f ''dietary'';
          meal = tokens f ''meal_time'';
          acc = tokens f ''accessibility'';
          svc = tokens f ''service_type'';
          sp = tokens f ''special_needs'';
          d1 = flag_filter (''vegetarian'' \<in> set dietary \<or> ''vegan'' \<in> set dietary)
                 ''SERVES_VEGETARIAN'' results_df;
          d2 = flag_filter (''breakfast'' \<in> set meal) ''SERVES_BREAKFAST'' d1;
          d3 = flag_filter (''lunch'' \<in> set meal) ''SERVES_LUNCH'' d2;
          d4 = flag_filter (''dinner'' \<in> set meal) ''SERVES_DINNER'' d3;
          d5 = flag_filter (''wheelchair'' \<in> set acc) ''IS_WHEELCHAIR_ACCESSIBLE'' d4;
          d6 = flag_filter (''groups'' \<in> set acc \<or> ''group'' \<in> set acc) ''GOOD_FOR_GROUPS'' d5;
          d7 = flag_filter (''children'' \<in> set acc \<or> ''kids'' \<in> set acc \<or> ''family'' \<in> set acc)
                 ''GOOD_FOR_CHILDREN'' d6;
          d8 = flag_filter (''outdoor'' \<in> set svc) ''OUTDOOR_SEATING'' d7;
          d9 = flag_filter (''takeout'' \<in> set svc) ''TAKEOUT'' d8;
          d10 = flag_filter (''delivery'' \<in> set svc) ''DELIVERY'' d9;
          d11 = flag_filter (''reservations'' \<in> set svc \<or> ''reservable'' \<in> set svc)
                  ''RESERVABLE'' d10;
          d12 = flag_filter (''coffee_shop'' \<in> set sp \<or> ''cafe'' \<in> set sp) ''SERVES_COFFEE'' d11;
          d13 = flag_filter (''pet_friendly'' \<in> set sp \<or> ''dogs'' \<in> set sp) ''ALLOWS_DOGS'' d12
      in flag_filter (''live_music'' \<in> set sp) ''LIVE_MUSIC'' d13)"

text \<open>
  \<open>researcher_agent\<close>. The final sort is by \<open>OVERALL_SCORE\<close>, descending, when the column
  exists.
\<close>

definition failed_msg :: "string \<Rightarrow> frame AgentMessage" where
  "failed_msg who = \<lparr>agent = who, status = ''failed'', data = None, confidence = 0\<rparr>"

definition researcher_agent ::
  "frame AgentMessage option \<Rightarrow> pyval \<Rightarrow> int \<Rightarrow> (string \<times> pyval) list option
     \<Rightarrow> frame AgentMessage" where
  "researcher_agent retriever_msg max_price min_safety attribute_filters =
     (case retriever_msg of
        None \<Rightarrow> failed_msg ''Researcher''
      | Some m \<Rightarrow>
          if \<not> is_successful m then failed_msg ''Researcher''
          else
            (case data m of
               None \<Rightarrow> failed_msg ''Researcher''
             | Some df0 \<Rightarrow>
                 if rows df0 = [] then failed_msg ''Researcher''
                 else
                   let results_df =
                         attribute_filter attribute_filters
                           (safety_filter min_safety (price_filter max_price df0))
                   in if rows results_df = [] then
                        \<lparr>agent = ''Researcher'', status = ''partial'', data = None, confidence = 0\<rparr>
                      else
                        let sorted =
                              (if ''OVERALL_SCORE'' \<in> set (columns results_df)
                               then results_df\<lparr>rows :=
                                      sort_values (\<lambda>r. map_option uminus (OVERALL_SCORE r))
                                        (rows results_df)\<rparr>
                               else results_df)
                        in \<lparr>agent = ''Researcher'', status = ''success'', data = Some sorted,
                            confidence = 9 / 10\<rparr>))"


section \<open>Retriever (agents/retriever.py)\<close>

text \<open>
  The store is outside the program. \<open>search_hits\<close> are the rows that satisfy the
  \<open>WHERE\<close> clause of the search query, in the order of its \<open>ORDER BY\<close>;
  \<open>master_rows\<close> is the master table; \<open>None\<close> stands for a query that raises.
  \<open>haversine\<close> is the distance from the user's location to a row, computed in floating
  point by \<open>calculate_haversine_distance\<close> (\<open>None\<close> for a row without coordinates); it
  is a parameter, \<open>None\<close> when the computation raises.
\<close>

record store =
  search_hits :: "row list option"
  master_rows :: "row list option"
  haversine :: "(row \<Rightarrow> rat option) option"

definition search_columns :: "string list" where
  "search_columns =
     [''RESTAURANT_ID'', ''RESTAURANT_NAME'', ''CITY'', ''NEIGHBORHOOD'', ''PRIMARY_CUISINE'',
      ''PRICE_LEVEL'', ''OVERALL_SCORE'', ''RECOMMENDATION_TIER'', ''SAFETY_SCORE'',
      ''HEALTH_RISK_LEVEL'', ''NEAREST_STOP_DISTANCE_M'', ''SERVES_VEGETARIAN'',
      ''IS_WHEELCHAIR_ACCESSIBLE'', ''GOOD_FOR_GROUPS'', ''IS_CURRENTLY_OPEN'',
      ''SIMILARITY_SCORE'']"

definition detail_columns :: "string list" where
  "detail_columns =
     [''STREET_ADDRESS'', ''PHONE'', ''YELP_RATING'', ''CITY'', ''LATITUDE'', ''LONGITUDE'',
      ''YELP_URL'', ''SERVES_BREAKFAST'', ''SERVES_LUNCH'', ''SERVES_DINNER'', ''SERVES_COFFEE'',
      ''GOOD_FOR_CHILDREN'', ''OUTDOOR_SEATING'', ''TAKEOUT'', ''DELIVERY'', ''ALLOWS_DOGS'',
      ''LIVE_MUSIC'', ''OPEN_NOW'']"

text \<open>The search query ends in \<open>LIMIT top_k\<close>; a negative limit is an error of the
  store.\<close>

definition run_search :: "store \<Rightarrow> int \<Rightarrow> row list option" where
  "run_search st top_k =
     (case search_hits st of
        None \<Rightarrow> None
      | Some hs \<Rightarrow> if top_k < 0 then None else Some (take (nat top_k) hs))"

text \<open>The detail query: the rows of the master table whose identity is in the list.\<close>

definition run_detail :: "store \<Rightarrow> string list \<Rightarrow> row list option" where
  "run_detail st restaurant_ids =
     (case master_rows st of
        None \<Rightarrow> None
      | Some ms \<Rightarrow> Some (filter (\<lambda>d. RESTAURANT_ID d \<in> set restaurant_ids) ms))"

text \<open>
  \<open>results_df.merge(detail_df, on='RESTAURANT_ID', how='left')\<close>: every row of the left
  frame, in order, once for each row of the right frame with the same identity, and once
  with missing values when there is none. The column \<open>CITY\<close> is in both frames and gets
  the suffixes of pandas.
\<close>

definition merge_row :: "row \<Rightarrow> row \<Rightarrow> row" where
  "merge_row l d = l\<lparr>flags := (\<lambda>c. if c \<in> set detail_columns then flags d c else flags l c)\<rparr>"

definition unmatched_row :: "row \<Rightarrow> row" where
  "unmatched_row l = l\<lparr>flags := (\<lambda>c. if c \<in> set detail_columns then None else flags l c)\<rparr>"

definition merge_rows :: "row list \<Rightarrow> row list \<Rightarrow> row list" where
  "merge_rows ls ds =
     concat (map (\<lambda>l. case filter (\<lambda>d. RESTAURANT_ID d = RESTAURANT_ID l) ds of
                         [] \<Rightarrow> [unmatched_row l]
                       | m # ms \<Rightarrow> map (merge_row l) (m # ms)) ls)"

definition merge_left :: "frame \<Rightarrow> row list \<Rightarrow> frame" where
  "merge_left results_df detail_rows =
     \<lparr>columns = map (\<lambda>c. if c = ''CITY'' then ''CITY_x'' else c) (columns results_df)
                 @ map (\<lambda>c. if c = ''CITY'' then ''CITY_y'' else c) detail_columns,
      rows = merge_rows (rows results_df) detail_rows\<rparr>"

text \<open>
  The location in force: \<open>search_area\<close> when it is given (and not empty), else the
  \<open>location\<close> entry of the analysis, which must be a dictionary (\<open>.get\<close> on anything
  else raises). The result is the pair of \<open>location_name\<close> and \<open>location_mode\<close>.
\<close>

definition get_default :: "(string \<times> pyval) list \<Rightarrow> string \<Rightarrow> pyval \<Rightarrow> pyval" where
  "get_default d k v = (case map_of d k of None \<Rightarrow> v | Some x \<Rightarrow> x)"

definition resolve_location ::
  "(string \<times> pyval) list \<Rightarrow> (string \<times> pyval) list option \<Rightarrow> py_error + (pyval \<times> pyval)" where
  "resolve_location analyst_data search_area =
     (if (case search_area of None \<Rightarrow> False | Some sa \<Rightarrow> sa \<noteq> []) then
        (case search_area of
           Some sa \<Rightarrow> Inr (dict_get sa ''name'', get_default sa ''mode'' (PStr ''none''))
         | None \<Rightarrow> Inl AttributeError)
      else
        (case get_default analyst_data ''location'' (PDict []) of
           PDict location_info \<Rightarrow>
             Inr (dict_get location_info ''name'', get_default location_info ''mode'' (PStr ''none''))
         | _ \<Rightarrow> Inl AttributeError))"

text \<open>
  \<open>retriever_agent\<close>. Every exception ends in the failed message. The texts of the two
  queries are not part of this model (their interpolated parts are above): the store's
  answers are given by \<open>st\<close>. \<open>location_name.replace\<close> raises when the name is a true
  value that is not a string. The distance columns are added and the frame is sorted by
  them when the user's location has a latitude and the enrichment brought \<open>LATITUDE\<close>.
\<close>

definition retriever_agent ::
  "store \<Rightarrow> (string \<times> pyval) list \<Rightarrow> (string \<times> pyval) list option
     \<Rightarrow> (string \<times> pyval) list option \<Rightarrow> int \<Rightarrow> frame AgentMessage" where
  "retriever_agent st analyst_data user_location search_area top_k =
     (case resolve_location analyst_data search_area of
        Inl _ \<Rightarrow> failed_msg ''Retriever''
      | Inr (location_name, location_mode) \<Rightarrow>
          if truthy location_name \<and> \<not> is_str location_name then failed_msg ''Retriever''
          else
            (case run_search st top_k of
               None \<Rightarrow> failed_msg ''Retriever''
             | Some found \<Rightarrow>
                 if found = [] then failed_msg ''Retriever''
                 else
                   let results_df = \<lparr>columns = search_columns, rows = found\<rparr>;
                       enriched =
                         (case run_detail st (map RESTAURANT_ID found) of
                            None \<Rightarrow> results_df
                          | Some detail_rows \<Rightarrow> merge_left results_df detail_rows);
                       success = (\<lambda>df. \<lparr>agent = ''Retriever'', status = ''success'',
                                         data = Some df, confidence = 9 / 10\<rparr>)
                   in if location_mode = PStr ''include_nearby'' \<and> truthy location_name
                      then success enriched
                      else if (case user_location of
                                 None \<Rightarrow> False
                               | Some ul \<Rightarrow> ul \<noteq> [] \<and> map_of ul ''latitude'' \<noteq> None)
                             \<and> ''LATITUDE'' \<in> set (columns enriched)
                      then
                        (case haversine st of
                           None \<Rightarrow> failed_msg ''Retriever''
                         | Some distance_of \<Rightarrow>
                             success
                               \<lparr>columns = columns enriched
                                    @ [''DISTANCE_FROM_USER_M'', ''DISTANCE_FROM_USER_MI''],
                                rows = sort_values distance_of (rows enriched)\<rparr>)
                      else success enriched))"

text \<open>
  Fixtures. Ten rows with the price tiers 1, 2, 3, 4, 2, 1, 3, 4, 2, 1, named \<open>r0\<close> to
  \<open>r9\<close>; and a store whose master table has two rows for one restaurant.
\<close>

definition tier_row :: "string \<Rightarrow> rat \<Rightarrow> row" where
  "tier_row rid tier =
     \<lparr>RESTAURANT_ID = rid, PRICE_LEVEL = Some tier, SAFETY_SCORE = Some 90,
      OVERALL_SCORE = Some 50, flags = (\<lambda>c. None)\<rparr>"

definition tiers_frame :: frame where
  "tiers_frame =
     \<lparr>columns = search_columns,
      rows = [tier_row ''r0'' 1, tier_row ''r1'' 2, tier_row ''r2'' 3, tier_row ''r3'' 4,
              tier_row ''r4'' 2, tier_row ''r5'' 1, tier_row ''r6'' 3, tier_row ''r7'' 4,
              tier_row ''r8'' 2, tier_row ''r9'' 1]\<rparr>"

definition duplicate_store :: store where
  "duplicate_store =
     \<lparr>search_hits = Some [tier_row ''r0'' 1, tier_row ''r1'' 2],
      master_rows = Some [tier_row ''r0'' 1, tier_row ''r0'' 1],
      haversine = None\<rparr>"

definition unique_store :: store where
  "unique_store =
     \<lparr>search_hits = Some [tier_row ''r0'' 1, tier_row ''r1'' 2, tier_row ''r2'' 3],
      master_rows = Some [tier_row ''r1'' 2, tier_row ''r0'' 1],
      haversine = None\<rparr>"


section \<open>Verification\<close>

subsection \<open>The score parser\<close>

lemma parse_score_range: "1 \<le> parse_score t \<and> parse_score t \<le> 10"
  by (simp add: parse_score_def clamp_score_def Let_def split: option.split)

lemma parse_score_11: "parse_score (Some ''Score: 11'') = 7"
  by code_simp

text \<open>
  Claim C2, as stated, fails on \<open>Score: 11\<close>: the text has no \<open>OVERALL\<close> and no
  \<open>/10\<close>, and the last pattern only accepts a number from 1 to 10 that stands alone, which
  neither digit of 11 does. The parser returns the default 7, not 10.
\<close>

theorem parse_score_11_not_clamped: "parse_score (Some ''Score: 11'') \<noteq> 10"
  using parse_score_11 by simp

text \<open>
  Claim C2, amended. \<open>OVERALL: 9\<close> parses to 9; \<open>Score: 11\<close> parses to the default 7;
  a value found by a pattern is clamped, so \<open>OVERALL: 11\<close> parses to 10; a text without
  numbers and a failed model call (\<open>None\<close>) give the default 7; every result lies
  between 1 and 10.
\<close>

theorem parse_score_examples_and_range:
  "parse_score (Some ''OVERALL: 9'') = 9 \<and>
   parse_score (Some ''Score: 11'') = 7 \<and>
   parse_score (Some ''OVERALL: 11'') = 10 \<and>
   parse_score (Some ''no numbers here'') = 7 \<and>
   parse_score None = 7 \<and>
   1 \<le> parse_score t \<and> parse_score t \<le> 10"
proof -
  have "parse_score (Some ''OVERALL: 9'') = 9" by code_simp
  moreover have "parse_score (Some ''OVERALL: 11'') = 10" by code_simp
  moreover have "parse_score (Some ''no numbers here'') = 7" by code_simp
  moreover have "parse_score None = 7" by (simp add: parse_score_def)
  ultimately show ?thesis using parse_score_range[of t] parse_score_11 by simp
qed

subsection \<open>The reviewer's early returns\<close>

text \<open>
  Claim C10. When the writer message is absent, or not successful, or the text extracted
  from it is empty, the reviewer returns a message of the agent \<open>Reviewer\<close> with status
  \<open>failed\<close> and no payload, the score 0, and sends no prompt to the language model; the
  score 0 is below every score that the parser returns.
\<close>

theorem reviewer_rejects_without_model_call:
  assumes "writer_msg = None \<or> (\<exists>wm. writer_msg = Some wm \<and> \<not> is_successful wm)
           \<or> extract_text writer_msg = []"
  shows "agent (review_msg (reviewer_agent call_cortex writer_msg user_query)) = ''Reviewer'' \<and>
         status (review_msg (reviewer_agent call_cortex writer_msg user_query)) = ''failed'' \<and>
         data (review_msg (reviewer_agent call_cortex writer_msg user_query)) = None \<and>
         score (reviewer_agent call_cortex writer_msg user_query) = 0 \<and>
         prompts (reviewer_agent call_cortex writer_msg user_query) = [] \<and>
         score (reviewer_agent call_cortex writer_msg user_query) < parse_score t"
proof -
  have "1 \<le> parse_score t" by (simp add: parse_score_range)
  then show ?thesis
    using assms by (auto simp: reviewer_agent_def Let_def split: option.splits)
qed

lemma blank_recommendation:
  "extract_text (Some \<lparr>agent = ''Writer'', status = ''success'',
      data = Some (PDict [(''recommendation'', PStr ''  '')]), confidence = 85 / 100\<rparr>) = []"
  by (simp add: extract_text_def is_successful_def strip_def isspace_def)

theorem reviewer_rejects_without_model_call_witness:
  "extract_text (Some \<lparr>agent = ''Writer'', status = ''success'',
      data = Some (PDict [(''recommendation'', PStr ''  '')]), confidence = 85 / 100\<rparr>) = [] \<and>
   status (review_msg (reviewer_agent (\<lambda>p. Some ''OVERALL: 9'')
     (Some \<lparr>agent = ''Writer'', status = ''success'',
        data = Some (PDict [(''recommendation'', PStr ''  '')]), confidence = 85 / 100\<rparr>)
     (Some ''pizza near MIT''))) = ''failed'' \<and>
   score (reviewer_agent (\<lambda>p. Some ''OVERALL: 9'')
     (Some \<lparr>agent = ''Writer'', status = ''success'',
        data = Some (PDict [(''recommendation'', PStr ''  '')]), confidence = 85 / 100\<rparr>)
     (Some ''pizza near MIT'')) = 0 \<and>
   prompts (reviewer_agent (\<lambda>p. Some ''OVERALL: 9'')
     (Some \<lparr>agent = ''Writer'', status = ''success'',
        data = Some (PDict [(''recommendation'', PStr ''  '')]), confidence = 85 / 100\<rparr>)
     (Some ''pizza near MIT'')) = []"
  using blank_recommendation
    reviewer_rejects_without_model_call[of
      "Some \<lparr>agent = ''Writer'', status = ''success'',
        data = Some (PDict [(''recommendation'', PStr ''  '')]), confidence = 85 / 100\<rparr>"
      "\<lambda>p. Some ''OVERALL: 9''" "Some ''pizza near MIT''" None]
  by blast

subsection \<open>The Writer/Reviewer loop\<close>

lemma best_ofI:
  assumes "j < k" "score_at W R j = Some s" "0 \<le> s"
    "best_writer_msg st = W j" "best_score st = s"
    "\<forall>i<k. \<forall>t. score_at W R i = Some t \<longrightarrow> t \<le> s"
    "\<forall>i<j. \<forall>t. score_at W R i = Some t \<longrightarrow> t < s"
  shows "best_of W R k st"
proof -
  have ne: "\<not> (\<forall>i<k. score_at W R i = None)"
    using assms(1,2) by (metis option.distinct(1))
  show ?thesis unfolding best_of_def if_not_P[OF ne] using assms by blast
qed

lemma best_ofE:
  assumes "best_of W R k st" "\<not> (\<forall>i<k. score_at W R i = None)"
  obtains j s where "j < k" "score_at W R j = Some s" "0 \<le> s"
    "best_writer_msg st = W j" "best_score st = s"
    "\<forall>i<k. \<forall>t. score_at W R i = Some t \<longrightarrow> t \<le> s"
    "\<forall>i<j. \<forall>t. score_at W R i = Some t \<longrightarrow> t < s"
  using assms(1) unfolding best_of_def if_not_P[OF assms(2)] by blast

lemma best_of_none:
  assumes "best_of W R k st" "\<forall>i<k. score_at W R i = None"
  shows "best_writer_msg st = None \<and> best_score st = - 1"
  using assms(1) unfolding best_of_def if_P[OF assms(2)] .

lemma best_of_skip:
  assumes inv: "best_of W R a st" and w: "score_at W R a = None"
  shows "best_of W R (Suc a) (st\<lparr>iterations := k\<rparr>)"
proof (cases "\<forall>i<a. score_at W R i = None")
  case True
  then have n: "\<forall>i<Suc a. score_at W R i = None" using w by (simp add: less_Suc_eq)
  have "best_writer_msg (st\<lparr>iterations := k\<rparr>) = None \<and> best_score (st\<lparr>iterations := k\<rparr>) = - 1"
    using best_of_none[OF inv True] by simp
  then show ?thesis unfolding best_of_def if_P[OF n] .
next
  case False
  from best_ofE[OF inv False] obtain j s where j: "j < a" "score_at W R j = Some s" "0 \<le> s"
      "best_writer_msg st = W j" "best_score st = s"
      "\<forall>i<a. \<forall>t. score_at W R i = Some t \<longrightarrow> t \<le> s"
      "\<forall>i<j. \<forall>t. score_at W R i = Some t \<longrightarrow> t < s"
    by blast
  have all: "\<forall>i<Suc a. \<forall>t. score_at W R i = Some t \<longrightarrow> t \<le> s"
    using j(6) w by (auto simp: less_Suc_eq)
  show ?thesis
    by (rule best_ofI[where j = j and s = s]) (use j all in simp_all)
qed

lemma best_of_step:
  assumes inv: "best_of W R a st"
    and w: "W a = Some wm" "is_successful wm" and s: "0 \<le> R wm (a + 1)"
  shows "best_of W R (Suc a)
           (if R wm (a + 1) > best_score st
            then st\<lparr>iterations := k, best_score := R wm (a + 1), best_writer_msg := Some wm\<rparr>
            else st\<lparr>iterations := k\<rparr>)"
proof -
  have sa: "score_at W R a = Some (R wm (a + 1))"
    using w by (simp add: score_at_def)
  have new: "best_of W R (Suc a)
      (st\<lparr>iterations := k, best_score := R wm (a + 1), best_writer_msg := Some wm\<rparr>)"
    if "\<forall>i<a. \<forall>t. score_at W R i = Some t \<longrightarrow> t < R wm (a + 1)"
  proof (rule best_ofI[where j = a and s = "R wm (a + 1)"])
    show "\<forall>i<Suc a. \<forall>t. score_at W R i = Some t \<longrightarrow> t \<le> R wm (a + 1)"
      using that sa by (auto simp: less_Suc_eq)
  qed (use that sa s w in simp_all)
  show ?thesis
  proof (cases "\<forall>i<a. score_at W R i = None")
    case True
    with inv have b: "best_score st = - 1" using best_of_none by blast
    have "\<forall>i<a. \<forall>t. score_at W R i = Some t \<longrightarrow> t < R wm (a + 1)"
      using True by simp
    from new[OF this] show ?thesis using b s by simp
  next
    case False
    from best_ofE[OF inv False] obtain j s' where j: "j < a" "score_at W R j = Some s'" "0 \<le> s'"
      "best_writer_msg st = W j" "best_score st = s'"
      "\<forall>i<a. \<forall>t. score_at W R i = Some t \<longrightarrow> t \<le> s'"
      "\<forall>i<j. \<forall>t. score_at W R i = Some t \<longrightarrow> t < s'"
      by blast
    show ?thesis
    proof (cases "R wm (a + 1) > best_score st")
      case True
      have "\<forall>i<a. \<forall>t. score_at W R i = Some t \<longrightarrow> t < R wm (a + 1)"
        using j True by fastforce
      from new[OF this] show ?thesis using True by simp
    next
      case F: False
      have 1: "\<forall>i<Suc a. \<forall>t. score_at W R i = Some t \<longrightarrow> t \<le> s'"
        using j F sa by (auto simp: less_Suc_eq)
      have "best_of W R (Suc a) (st\<lparr>iterations := k\<rparr>)"
        by (rule best_ofI[where j = j and s = s']) (use j 1 in simp_all)
      then show ?thesis using F by simp
    qed
  qed
qed

lemma loop_inv:
  assumes ok: "\<forall>i<n. \<forall>s. score_at W R i = Some s \<longrightarrow> 0 \<le> s"
  shows "a \<le> n \<Longrightarrow> iterations st = a \<Longrightarrow>
    \<forall>i<a. \<forall>s. score_at W R i = Some s \<longrightarrow> s < q \<Longrightarrow> best_of W R a st \<Longrightarrow>
    (let st' = writer_reviewer_loop W R q [a..<n] st; k = iterations st' in
       k \<le> n \<and> (\<forall>i s. i + 1 < k \<and> score_at W R i = Some s \<longrightarrow> s < q) \<and>
       (k < n \<longrightarrow> 0 < k \<and> (\<exists>s. score_at W R (k - 1) = Some s \<and> q \<le> s)) \<and>
       best_of W R k st')"
proof (induction "n - a" arbitrary: a st)
  case 0
  then have "a = n" by simp
  with 0 show ?case by (auto simp: Let_def dest: Suc_lessD)
next
  case (Suc d)
  then have an: "a < n" by simp
  have d: "d = n - Suc a" using Suc.hyps(2) by simp
  have san: "Suc a \<le> n" using an by simp
  show ?case
  proof (cases "score_at W R a")
    case None
    define st1 where "st1 = st\<lparr>iterations := Suc a\<rparr>"
    have inv1: "best_of W R (Suc a) st1"
      unfolding st1_def using best_of_skip[OF Suc.prems(4) None] .
    have it1: "iterations st1 = Suc a" by (simp add: st1_def)
    have unfold: "writer_reviewer_loop W R q [a..<n] st = writer_reviewer_loop W R q [Suc a..<n] st1"
      using an None Suc.prems(2)
      by (auto simp: upt_conv_Cons Let_def st1_def score_at_def split: option.splits if_splits)
    have lt: "\<forall>i<Suc a. \<forall>s. score_at W R i = Some s \<longrightarrow> s < q"
      using Suc.prems(3) None by (auto simp: less_Suc_eq)
    from Suc.hyps(1)[OF d san it1 lt inv1] show ?thesis
      unfolding unfold by simp
  next
    case (Some s)
    then obtain wm where wm: "W a = Some wm" "is_successful wm" "s = R wm (a + 1)"
      by (auto simp: score_at_def split: option.splits if_splits)
    have s0: "0 \<le> R wm (a + 1)" using ok an Some wm(3) by blast
    have sa: "score_at W R a = Some (R wm (a + 1))" using Some wm(3) by simp
    define st2 where "st2 = (if R wm (a + 1) > best_score st
            then st\<lparr>iterations := Suc a, best_score := R wm (a + 1), best_writer_msg := Some wm\<rparr>
            else st\<lparr>iterations := Suc a\<rparr>)"
    have inv2: "best_of W R (Suc a) st2"
      unfolding st2_def using best_of_step[OF Suc.prems(4) wm(1) wm(2) s0] .
    have it2: "iterations st2 = Suc a" by (simp add: st2_def)
    have unfold: "writer_reviewer_loop W R q [a..<n] st =
        (if R wm (a + 1) \<ge> q then st2 else writer_reviewer_loop W R q [Suc a..<n] st2)"
      using an wm Suc.prems(2) by (simp add: upt_conv_Cons Let_def st2_def)
    show ?thesis
    proof (cases "R wm (a + 1) \<ge> q")
      case True
      have "\<forall>i s. i + 1 < Suc a \<and> score_at W R i = Some s \<longrightarrow> s < q"
        using Suc.prems(3) by auto
      then show ?thesis
        unfolding unfold using True an inv2 sa it2 by (simp add: Let_def)
    next
      case False
      have lt: "\<forall>i<Suc a. \<forall>s. score_at W R i = Some s \<longrightarrow> s < q"
        using Suc.prems(3) False sa by (auto simp: less_Suc_eq)
      from Suc.hyps(1)[OF d san it2 lt inv2] show ?thesis
        unfolding unfold using False by simp
    qed
  qed
qed


lemma stub_runs:
  "iterations (orchestrator_loop writer_stub (reviewer_stub [5, 9, 3]) 3 8) = 2 \<and>
   orchestrator_result (orchestrator_loop writer_stub (reviewer_stub [5, 9, 3]) 3 8)
     = Some (the (writer_stub 1), 9) \<and>
   iterations (orchestrator_loop writer_stub (reviewer_stub [4, 5]) 2 8) = 2 \<and>
   orchestrator_result (orchestrator_loop writer_stub (reviewer_stub [4, 5]) 2 8)
     = Some (the (writer_stub 1), 5)"
  by (simp add: orchestrator_loop_def orchestrator_result_def init_state_def upt_conv_Cons
      writer_stub_def reviewer_stub_def is_successful_def)

lemma flaky_runs:
  "iterations (orchestrator_loop flaky_writer (reviewer_stub [9, 9, 6, 8, 3]) 5 8) = 4 \<and>
   orchestrator_result (orchestrator_loop flaky_writer (reviewer_stub [9, 9, 6, 8, 3]) 5 8)
     = Some (the (writer_stub 3), 8) \<and>
   iterations (orchestrator_loop (\<lambda>i. None) (reviewer_stub [9, 9]) 2 8) = 2 \<and>
   orchestrator_result (orchestrator_loop (\<lambda>i. None) (reviewer_stub [9, 9]) 2 8) = None"
  by (simp add: orchestrator_loop_def orchestrator_result_def init_state_def upt_conv_Cons
      writer_stub_def flaky_writer_def reviewer_stub_def is_successful_def eval_nat_numeral)

lemma flaky_scores:
  "score_at flaky_writer (reviewer_stub [9, 9, 6, 8, 3]) 0 = None"
  "score_at flaky_writer (reviewer_stub [9, 9, 6, 8, 3]) 1 = None"
  "score_at flaky_writer (reviewer_stub [9, 9, 6, 8, 3]) 2 = Some 6"
  "score_at flaky_writer (reviewer_stub [9, 9, 6, 8, 3]) 3 = Some 8"
  "score_at flaky_writer (reviewer_stub [9, 9, 6, 8, 3]) 4 = Some 3"
  by (simp_all add: score_at_def flaky_writer_def writer_stub_def reviewer_stub_def is_successful_def)

lemma reviewer_agent_score_range:
  "0 \<le> score (reviewer_agent call_cortex writer_msg user_query) \<and>
   score (reviewer_agent call_cortex writer_msg user_query) \<le> 10"
proof -
  have "0 \<le> parse_score t \<and> parse_score t \<le> 10" for t
    using parse_score_range[of t] by linarith
  then show ?thesis
    by (simp add: reviewer_agent_def Let_def)
qed

text \<open>
  Claim C1. The reviewer returns the score 0 or a score from 1 to 10. For scores that are
  at least 0, and whatever the writer does (an iteration whose writer returns nothing
  or a failed message has no score, and the loop goes on to the next one), the loop
  enters at most \<open>max_iterations\<close> iterations; no iteration before the last one entered
  has a score that meets the quality threshold; the loop ends before \<open>max_iterations\<close>
  only on a score that meets the threshold; when no iteration entered has a score there
  is no result, and otherwise the result is the writer message of the first iteration
  with the highest score among those entered, together with that score. With the scores
  5, 9, 3, three iterations and threshold 8 the loop enters two iterations and returns
  the second message with score 9; with the scores 4, 5, two iterations and threshold 8
  it enters two iterations and returns the second message with score 5. With a writer
  that fails in the first two of five iterations and the scores 6 and 8 in the third and
  fourth, the loop enters four iterations and returns the fourth message with score 8;
  with a writer that always fails it enters every iteration and returns nothing.
\<close>

theorem orchestrator_loop_bounded_best:
  assumes ok: "\<forall>i<nat max_iterations. \<forall>s. score_at W R i = Some s \<longrightarrow> 0 \<le> s"
  shows "(let st = orchestrator_loop W R max_iterations q; k = iterations st in
       k \<le> nat max_iterations \<and>
       (\<forall>i s. i + 1 < k \<and> score_at W R i = Some s \<longrightarrow> s < q) \<and>
       (k < nat max_iterations \<longrightarrow> 0 < k \<and> (\<exists>s. score_at W R (k - 1) = Some s \<and> q \<le> s)) \<and>
       ((\<forall>i<k. score_at W R i = None) \<longrightarrow> orchestrator_result st = None) \<and>
       ((\<exists>i<k. score_at W R i \<noteq> None) \<longrightarrow>
          (\<exists>j<k. \<exists>wm s. W j = Some wm \<and> score_at W R j = Some s \<and>
            orchestrator_result st = Some (wm, s) \<and>
            (\<forall>i<k. \<forall>t. score_at W R i = Some t \<longrightarrow> t \<le> s) \<and>
            (\<forall>i<j. \<forall>t. score_at W R i = Some t \<longrightarrow> t < s)))) \<and>
     iterations (orchestrator_loop writer_stub (reviewer_stub [5, 9, 3]) 3 8) = 2 \<and>
     orchestrator_result (orchestrator_loop writer_stub (reviewer_stub [5, 9, 3]) 3 8)
       = Some (the (writer_stub 1), 9) \<and>
     iterations (orchestrator_loop writer_stub (reviewer_stub [4, 5]) 2 8) = 2 \<and>
     orchestrator_result (orchestrator_loop writer_stub (reviewer_stub [4, 5]) 2 8)
       = Some (the (writer_stub 1), 5) \<and>
     iterations (orchestrator_loop flaky_writer (reviewer_stub [9, 9, 6, 8, 3]) 5 8) = 4 \<and>
     orchestrator_result (orchestrator_loop flaky_writer (reviewer_stub [9, 9, 6, 8, 3]) 5 8)
       = Some (the (writer_stub 3), 8) \<and>
     iterations (orchestrator_loop (\<lambda>i. None) (reviewer_stub [9, 9]) 2 8) = 2 \<and>
     orchestrator_result (orchestrator_loop (\<lambda>i. None) (reviewer_stub [9, 9]) 2 8) = None \<and>
     0 \<le> score (reviewer_agent call_cortex writer_msg user_query) \<and>
     score (reviewer_agent call_cortex writer_msg user_query) \<le> 10"
proof -
  define st where "st = orchestrator_loop W R max_iterations q"
  define k where "k = iterations st"
  have b0: "best_of W R 0 (init_state :: 'a loop_state)"
    by (simp add: best_of_def init_state_def)
  have "let st' = writer_reviewer_loop W R q [0..<nat max_iterations] init_state;
            k = iterations st' in
       k \<le> nat max_iterations \<and>
       (\<forall>i s. i + 1 < k \<and> score_at W R i = Some s \<longrightarrow> s < q) \<and>
       (k < nat max_iterations \<longrightarrow> 0 < k \<and> (\<exists>s. score_at W R (k - 1) = Some s \<and> q \<le> s)) \<and>
       best_of W R k st'"
    by (rule loop_inv[OF ok _ _ _ b0]) (simp_all add: init_state_def)
  then have main: "k \<le> nat max_iterations"
    "\<forall>i s. i + 1 < k \<and> score_at W R i = Some s \<longrightarrow> s < q"
    "k < nat max_iterations \<longrightarrow> 0 < k \<and> (\<exists>s. score_at W R (k - 1) = Some s \<and> q \<le> s)"
    "best_of W R k st"
    by (simp_all add: Let_def st_def k_def orchestrator_loop_def)
  have none: "(\<forall>i<k. score_at W R i = None) \<longrightarrow> orchestrator_result st = None"
    using best_of_none[OF main(4)] by (simp add: orchestrator_result_def)
  have some: "(\<exists>i<k. score_at W R i \<noteq> None) \<longrightarrow>
          (\<exists>j<k. \<exists>wm s. W j = Some wm \<and> score_at W R j = Some s \<and>
            orchestrator_result st = Some (wm, s) \<and>
            (\<forall>i<k. \<forall>t. score_at W R i = Some t \<longrightarrow> t \<le> s) \<and>
            (\<forall>i<j. \<forall>t. score_at W R i = Some t \<longrightarrow> t < s))"
  proof (rule impI)
    assume "\<exists>i<k. score_at W R i \<noteq> None"
    then have ne: "\<not> (\<forall>i<k. score_at W R i = None)" by auto
    obtain j s where j: "j < k" "score_at W R j = Some s" "0 \<le> s"
      "best_writer_msg st = W j" "best_score st = s"
      "\<forall>i<k. \<forall>t. score_at W R i = Some t \<longrightarrow> t \<le> s"
      "\<forall>i<j. \<forall>t. score_at W R i = Some t \<longrightarrow> t < s"
      by (rule best_ofE[OF main(4) ne])
    from j(2) obtain wm where wm: "W j = Some wm"
      by (auto simp: score_at_def split: option.splits)
    have res: "orchestrator_result st = Some (wm, s)"
      using j(4,5) wm by (simp add: orchestrator_result_def)
    have "\<exists>wm s. W j = Some wm \<and> score_at W R j = Some s \<and>
            orchestrator_result st = Some (wm, s) \<and>
            (\<forall>i<k. \<forall>t. score_at W R i = Some t \<longrightarrow> t \<le> s) \<and>
            (\<forall>i<j. \<forall>t. score_at W R i = Some t \<longrightarrow> t < s)"
      by (rule exI[of _ wm], rule exI[of _ s]) (intro conjI wm j(2) res j(6) j(7))
    with j(1) show "\<exists>j<k. \<exists>wm s. W j = Some wm \<and> score_at W R j = Some s \<and>
            orchestrator_result st = Some (wm, s) \<and>
            (\<forall>i<k. \<forall>t. score_at W R i = Some t \<longrightarrow> t \<le> s) \<and>
            (\<forall>i<j. \<forall>t. score_at W R i = Some t \<longrightarrow> t < s)"
      by (intro exI[of _ j] conjI)
  qed
  have gen: "(let st = orchestrator_loop W R max_iterations q; k = iterations st in
       k \<le> nat max_iterations \<and>
       (\<forall>i s. i + 1 < k \<and> score_at W R i = Some s \<longrightarrow> s < q) \<and>
       (k < nat max_iterations \<longrightarrow> 0 < k \<and> (\<exists>s. score_at W R (k - 1) = Some s \<and> q \<le> s)) \<and>
       ((\<forall>i<k. score_at W R i = None) \<longrightarrow> orchestrator_result st = None) \<and>
       ((\<exists>i<k. score_at W R i \<noteq> None) \<longrightarrow>
          (\<exists>j<k. \<exists>wm s. W j = Some wm \<and> score_at W R j = Some s \<and>
            orchestrator_result st = Some (wm, s) \<and>
            (\<forall>i<k. \<forall>t. score_at W R i = Some t \<longrightarrow> t \<le> s) \<and>
            (\<forall>i<j. \<forall>t. score_at W R i = Some t \<longrightarrow> t < s))))"
    unfolding Let_def st_def[symmetric] k_def[symmetric]
    by (intro conjI main(1) main(2) main(3) none some)
  show ?thesis using gen stub_runs flaky_runs reviewer_agent_score_range[of call_cortex writer_msg user_query]
    by (elim conjE) (intro conjI; assumption)
qed

theorem orchestrator_loop_bounded_best_witness:
  "score_at flaky_writer (reviewer_stub [9, 9, 6, 8, 3]) 0 = None \<and>
   score_at flaky_writer (reviewer_stub [9, 9, 6, 8, 3]) 1 = None \<and>
   score_at flaky_writer (reviewer_stub [9, 9, 6, 8, 3]) 2 = Some 6 \<and>
   score_at flaky_writer (reviewer_stub [9, 9, 6, 8, 3]) 3 = Some 8 \<and>
   score_at flaky_writer (reviewer_stub [9, 9, 6, 8, 3]) 4 = Some 3 \<and>
   iterations (orchestrator_loop flaky_writer (reviewer_stub [9, 9, 6, 8, 3]) 5 8) = 4 \<and>
   (\<exists>j wm s. j < 4 \<and> flaky_writer j = Some wm \<and>
       score_at flaky_writer (reviewer_stub [9, 9, 6, 8, 3]) j = Some s \<and>
       orchestrator_result (orchestrator_loop flaky_writer (reviewer_stub [9, 9, 6, 8, 3]) 5 8)
         = Some (wm, s))"
proof -
  have h: "\<forall>i<nat 5. \<forall>s. score_at flaky_writer (reviewer_stub [9, 9, 6, 8, 3]) i = Some s
             \<longrightarrow> 0 \<le> s"
  proof (intro allI impI)
    fix i :: nat and s :: int
    assume "i < nat 5" and s: "score_at flaky_writer (reviewer_stub [9, 9, 6, 8, 3]) i = Some s"
    then have "i = 0 \<or> i = 1 \<or> i = 2 \<or> i = 3 \<or> i = 4" by auto
    with s flaky_scores show "0 \<le> s" by auto
  qed
  have k: "iterations (orchestrator_loop flaky_writer (reviewer_stub [9, 9, 6, 8, 3]) 5 8) = 4"
    using flaky_runs by simp
  have e: "\<exists>i<4. score_at flaky_writer (reviewer_stub [9, 9, 6, 8, 3]) i \<noteq> None"
    using flaky_scores(3) by (intro exI[of _ 2]) simp
  note g = orchestrator_loop_bounded_best[OF h, of 8, THEN conjunct1, unfolded Let_def k]
  note g5 = g[THEN conjunct2, THEN conjunct2, THEN conjunct2, THEN conjunct2]
  from g5 e obtain j wm s where "j < 4" "flaky_writer j = Some wm"
       "score_at flaky_writer (reviewer_stub [9, 9, 6, 8, 3]) j = Some s"
       "orchestrator_result (orchestrator_loop flaky_writer (reviewer_stub [9, 9, 6, 8, 3]) 5 8)
         = Some (wm, s)"
    by blast
  then have c: "\<exists>j wm s. j < 4 \<and> flaky_writer j = Some wm \<and>
       score_at flaky_writer (reviewer_stub [9, 9, 6, 8, 3]) j = Some s \<and>
       orchestrator_result (orchestrator_loop flaky_writer (reviewer_stub [9, 9, 6, 8, 3]) 5 8)
         = Some (wm, s)"
    by blast
  show ?thesis using flaky_scores k c by simp
qed

subsection \<open>Strings: strip and lower\<close>

lemma isspace_lower_char [simp]: "isspace (lower_char c) = isspace c"
  by (auto simp: isspace_def lower_char_def Let_def)

lemma lower_char_idem [simp]: "lower_char (lower_char c) = lower_char c"
  by (auto simp: lower_char_def Let_def)

lemma lower_idem [simp]: "lower (lower s) = lower s"
  by (simp add: lower_def)

lemma lower_Nil_iff [simp]: "lower s = [] \<longleftrightarrow> s = []"
  by (simp add: lower_def)

lemma strip_lower: "strip (lower s) = lower (strip s)"
proof -
  have c: "isspace \<circ> lower_char = isspace" by (rule ext) simp
  show ?thesis
    by (simp add: strip_def lower_def dropWhile_map rev_map c)
qed

lemma strip_Nil_iff: "strip s = [] \<longleftrightarrow> (\<forall>c\<in>set s. isspace c)"
proof
  assume "strip s = []"
  then have a: "\<forall>x\<in>set (dropWhile isspace s). isspace x"
    by (simp add: strip_def)
  have "dropWhile isspace s = []"
  proof (rule ccontr)
    assume n: "dropWhile isspace s \<noteq> []"
    then have "\<not> isspace (hd (dropWhile isspace s))" by (rule hd_dropWhile)
    moreover have "hd (dropWhile isspace s) \<in> set (dropWhile isspace s)" using n by simp
    ultimately show False using a by blast
  qed
  then show "\<forall>c\<in>set s. isspace c" by simp
next
  assume "\<forall>c\<in>set s. isspace c"
  then have d: "dropWhile isspace s = []" by simp
  show "strip s = []" unfolding strip_def d by simp
qed

lemma strip_ends: "strip s \<noteq> [] \<Longrightarrow> \<not> isspace (hd (strip s)) \<and> \<not> isspace (last (strip s))"
proof -
  assume ne: "strip s \<noteq> []"
  define t where "t = dropWhile isspace s"
  define u where "u = dropWhile isspace (rev t)"
  have su: "strip s = rev u" by (simp add: strip_def t_def u_def)
  have u: "u \<noteq> []" using ne su by simp
  then have hu: "\<not> isspace (hd u)" unfolding u_def by (rule hd_dropWhile)
  have l: "last (strip s) = hd u" using u su by (simp add: last_rev)
  have t: "t \<noteq> []"
  proof
    assume "t = []"
    then have "u = []" by (simp add: u_def)
    with u show False by simp
  qed
  then have ht: "\<not> isspace (hd t)" unfolding t_def by (rule hd_dropWhile)
  have "rev t = takeWhile isspace (rev t) @ u" by (simp add: u_def)
  then have "rev (rev t) = rev (takeWhile isspace (rev t) @ u)" by simp
  then have "t = rev u @ rev (takeWhile isspace (rev t))" by simp
  then have "hd t = hd (rev u @ rev (takeWhile isspace (rev t)))" by simp
  also have "\<dots> = hd (rev u)" using u by simp
  finally have "hd (strip s) = hd t" using su by simp
  with ht hu l show ?thesis by simp
qed

lemma strip_fixed: "s \<noteq> [] \<Longrightarrow> \<not> isspace (hd s) \<Longrightarrow> \<not> isspace (last s) \<Longrightarrow> strip s = s"
proof -
  assume a: "s \<noteq> []" "\<not> isspace (hd s)" "\<not> isspace (last s)"
  have 1: "dropWhile isspace s = s" using a by (cases s) auto
  have 2: "dropWhile isspace (rev s) = rev s"
  proof (cases "rev s")
    case Nil
    with a show ?thesis by simp
  next
    case (Cons x xs)
    have "hd (rev s) = last s" using a by (simp add: hd_rev)
    with Cons have "x = last s" by simp
    with a have "\<not> isspace x" by simp
    then show ?thesis unfolding Cons by simp
  qed
  show ?thesis by (simp add: strip_def 1 2)
qed

lemma strip_Nil [simp]: "strip [] = []"
  by (simp add: strip_def)

lemma strip_idem [simp]: "strip (strip s) = strip s"
proof (cases "strip s = []")
  case True
  then show ?thesis by simp
next
  case False
  then show ?thesis using strip_ends[OF False] by (simp add: strip_fixed)
qed

subsection \<open>The filter normalisers\<close>

lemma token_ok_norm: "strip s \<noteq> [] \<Longrightarrow> token_ok (lower (strip s))"
  by (simp add: token_ok_def strip_lower)

lemma show_nat_not_blank: "strip (show_nat n) \<noteq> []"
proof -
  have d: "\<not> isspace (digit_char (n mod 10))"
    by (simp add: isspace_def digit_char_def Let_def) presburger
  have "digit_char (n mod 10) \<in> set (show_nat n)"
    by (subst show_nat.simps) auto
  with d show ?thesis by (auto simp: strip_Nil_iff)
qed

lemma py_str_not_blank:
  "v \<noteq> PNone \<Longrightarrow> (\<forall>xs. v \<noteq> PList xs) \<Longrightarrow> (\<forall>s. v \<noteq> PStr s) \<Longrightarrow> strip (py_str v) \<noteq> []"
proof (cases v)
  case (PBool b)
  then show ?thesis by (cases b) (simp_all add: strip_def isspace_def)
next
  case (PInt i)
  have "\<not> isspace CHR ''-''" by (simp add: isspace_def)
  then have "strip (CHR ''-'' # show_nat (nat (- i))) \<noteq> []"
    by (auto simp: strip_Nil_iff)
  then show ?thesis using PInt show_nat_not_blank by (simp add: show_int_def)
next
  case (PDict kvs)
  have "\<not> isspace CHR ''{''" by (simp add: isspace_def)
  then show ?thesis using PDict by (auto simp: strip_Nil_iff)
qed simp_all

lemma ensure_list_tokens: "list_all token_ok (ensure_list v)"
proof (cases v)
  case (PList xs)
  then show ?thesis by (auto simp: list_all_iff token_ok_norm)
next
  case (PStr s)
  then show ?thesis by (simp add: Let_def token_ok_norm)
next
  case PNone then show ?thesis by simp
next
  case (PBool b)
  then show ?thesis using py_str_not_blank[of v] by (simp add: token_ok_norm)
next
  case (PInt i)
  then show ?thesis using py_str_not_blank[of v] by (simp add: token_ok_norm)
next
  case (PDict kvs)
  then show ?thesis using py_str_not_blank[of v] by (simp add: token_ok_norm)
qed

lemma ensure_list_str_list:
  "list_all token_ok ts \<Longrightarrow> ensure_list (str_list ts) = ts"
  by (induction ts) (auto simp: str_list_def token_ok_def)


lemma filter_set_lookups:
  "dict_get (filter_set a b c e f) ''dietary'' = str_list a"
  "dict_get (filter_set a b c e f) ''meal_time'' = str_list b"
  "dict_get (filter_set a b c e f) ''accessibility'' = str_list c"
  "dict_get_or (filter_set a b c e f) ''service_type'' ''service'' = str_list e"
  "dict_get_or (filter_set a b c e f) ''special_needs'' ''special'' = str_list f"
  "map_of (filter_set a b c e f) ''service'' = None"
  "map_of (filter_set a b c e f) ''special'' = None"
  "filter_set a b c e f \<noteq> []"
  by (simp_all add: filter_set_def dict_get_def dict_get_or_def)

lemma normalize_filters_fixed:
  assumes "well_formed d"
  shows "normalize_filters (Some d) = d"
proof -
  from assms obtain a b c e f where d: "d = filter_set a b c e f"
    and t: "list_all token_ok a" "list_all token_ok b" "list_all token_ok c"
      "list_all token_ok e" "list_all token_ok f"
    by (auto simp: well_formed_def)
  show ?thesis
    unfolding d normalize_filters_def
    by (simp add: filter_set_lookups ensure_list_str_list t)
qed

lemma normalize_attribute_filters_fixed:
  assumes "well_formed d"
  shows "normalize_attribute_filters (Some d) = d"
proof -
  from assms obtain a b c e f where d: "d = filter_set a b c e f"
    and t: "list_all token_ok a" "list_all token_ok b" "list_all token_ok c"
      "list_all token_ok e" "list_all token_ok f"
    by (auto simp: well_formed_def)
  show ?thesis
    unfolding d normalize_attribute_filters_def
    by (simp add: filter_set_lookups ensure_list_str_list t)
qed

lemma well_formed_filter_set:
  "list_all token_ok a \<Longrightarrow> list_all token_ok b \<Longrightarrow> list_all token_ok c \<Longrightarrow>
   list_all token_ok e \<Longrightarrow> list_all token_ok f \<Longrightarrow> well_formed (filter_set a b c e f)"
  unfolding well_formed_def by blast

lemma normalize_filters_wf: "well_formed (normalize_filters x)"
  unfolding normalize_filters_def Let_def
  by (intro well_formed_filter_set ensure_list_tokens)

lemma normalize_attribute_filters_wf: "well_formed (normalize_attribute_filters x)"
proof (cases x)
  case None
  then show ?thesis
    by (simp add: normalize_attribute_filters_def well_formed_filter_set)
next
  case (Some f)
  show ?thesis
  proof (cases "f = []")
    case True
    with Some show ?thesis
      by (simp add: normalize_attribute_filters_def well_formed_filter_set)
  next
    case False
    have "well_formed (filter_set (ensure_list (dict_get f ''dietary''))
      (ensure_list (dict_get f ''meal_time'')) (ensure_list (dict_get f ''accessibility''))
      (if map_of f ''service'' \<noteq> None \<and> ensure_list (dict_get_or f ''service_type'' ''service'') = []
       then ensure_list (dict_get f ''service'')
       else ensure_list (dict_get_or f ''service_type'' ''service''))
      (if map_of f ''special'' \<noteq> None \<and> ensure_list (dict_get_or f ''special_needs'' ''special'') = []
       then ensure_list (dict_get f ''special'')
       else ensure_list (dict_get_or f ''special_needs'' ''special'')))"
      by (intro well_formed_filter_set) (simp_all only: ensure_list_tokens if_split, simp_all add: ensure_list_tokens)
    with Some False show ?thesis
      by (simp add: normalize_attribute_filters_def Let_def)
  qed
qed

lemma legacy_example:
  "normalize_filters (Some [(''dietary'', PStr '' Vegan ''),
      (''meal_time'', PList [PStr ''Lunch '', PInt 5, PNone, PStr ''  '']),
      (''accessibility'', PNone), (''service'', PStr ''Outdoor''),
      (''special'', PList [PStr ''Pet_Friendly''])])
   = filter_set [''vegan''] [''lunch'', ''5'', ''none''] [] [''outdoor''] [''pet_friendly'']"
  by code_simp

text \<open>
  Claim C4. Both normalisers (\<open>_normalize_filters\<close> of the orchestrator and
  \<open>_normalize_attribute_filters\<close> of the researcher) return, for every input (\<open>None\<close> or a
  dictionary whose values are \<open>None\<close>, strings, lists or anything else, under canonical or
  legacy keys), a well-formed FilterSet: the five slots, each a list of non-empty, trimmed,
  lower-case tokens. Neither has a failing branch: every operation they use (\<open>dict.get\<close>,
  \<open>str\<close>, \<open>strip\<close>, \<open>lower\<close>) is defined on every value. Normalising a normalised
  FilterSet again, with either function, gives it back.
\<close>

theorem filter_normalizers_idempotent:
  "well_formed (normalize_filters x) \<and>
   well_formed (normalize_attribute_filters x) \<and>
   normalize_filters (Some (normalize_filters x)) = normalize_filters x \<and>
   normalize_attribute_filters (Some (normalize_attribute_filters x))
     = normalize_attribute_filters x \<and>
   normalize_attribute_filters (Some (normalize_filters x)) = normalize_filters x"
  using normalize_filters_wf[of x] normalize_attribute_filters_wf[of x]
  by (simp add: normalize_filters_fixed normalize_attribute_filters_fixed)

theorem filter_normalizers_idempotent_witness:
  "normalize_filters (Some (filter_set [''vegan''] [''lunch'', ''5'', ''none''] []
       [''outdoor''] [''pet_friendly'']))
     = filter_set [''vegan''] [''lunch'', ''5'', ''none''] [] [''outdoor''] [''pet_friendly''] \<and>
   well_formed (filter_set [''vegan''] [''lunch'', ''5'', ''none''] [] [''outdoor'']
       [''pet_friendly''])"
  using filter_normalizers_idempotent[of "Some [(''dietary'', PStr '' Vegan ''),
      (''meal_time'', PList [PStr ''Lunch '', PInt 5, PNone, PStr ''  '']),
      (''accessibility'', PNone), (''service'', PStr ''Outdoor''),
      (''special'', PList [PStr ''Pet_Friendly''])]"]
  unfolding legacy_example by simp

text \<open>
  Claim C6 does not hold of the code. When the canonical key is present with the value
  \<open>None\<close> (or with an empty list, as the analyser's \<open>_fill_defaults\<close> leaves it) next to
  the legacy key, \<open>dict.get\<close> with a default returns the value of the canonical key, so
  the orchestrator's normaliser drops the legacy value; the researcher's normaliser has a
  second step that takes the legacy value when the slot came out empty.
\<close>

theorem normalizers_differ_on_null_canonical_key:
  "normalize_filters (Some [(''service_type'', PNone), (''service'', PStr ''outdoor'')])
     = filter_set [] [] [] [] [] \<and>
   normalize_attribute_filters (Some [(''service_type'', PNone), (''service'', PStr ''outdoor'')])
     = filter_set [] [] [] [''outdoor''] [] \<and>
   normalize_filters (Some [(''service_type'', PList []), (''service'', PList [PStr ''outdoor''])])
     = filter_set [] [] [] [] [] \<and>
   normalize_attribute_filters (Some [(''service_type'', PList []), (''service'', PList [PStr ''outdoor''])])
     = filter_set [] [] [] [''outdoor''] [] \<and>
   normalize_filters (Some [(''service_type'', PNone), (''service'', PStr ''outdoor'')])
     \<noteq> normalize_attribute_filters (Some [(''service_type'', PNone), (''service'', PStr ''outdoor'')])"
proof -
  have 1: "normalize_filters (Some [(''service_type'', PNone), (''service'', PStr ''outdoor'')])
     = filter_set [] [] [] [] []" by code_simp
  have 2: "normalize_attribute_filters (Some [(''service_type'', PNone), (''service'', PStr ''outdoor'')])
     = filter_set [] [] [] [''outdoor''] []" by code_simp
  have 3: "normalize_filters (Some [(''service_type'', PList []), (''service'', PList [PStr ''outdoor''])])
     = filter_set [] [] [] [] []" by code_simp
  have 4: "normalize_attribute_filters (Some [(''service_type'', PList []), (''service'', PList [PStr ''outdoor''])])
     = filter_set [] [] [] [''outdoor''] []" by code_simp
  have 5: "filter_set [] [] [] [] [] \<noteq> filter_set [] [] [] [''outdoor''] []"
    by (simp add: filter_set_def str_list_def)
  show ?thesis unfolding 1 2 3 4 using 5 by simp
qed


subsection \<open>The query analyser\<close>










lemma clean_vegan: "clean_json vegan_response = vegan_response"
  by code_simp

lemma clean_legacy: "clean_json legacy_response = legacy_response"
  by code_simp

lemma stub_distinct: "legacy_response \<noteq> vegan_response"
  by code_simp






subsection \<open>Geocoding\<close>

lemma paris_unknown: "\<not> known_neighborhood ''Paris''"
  by code_simp

lemma paris_geocoded: "geocode_location ''Paris'' =
    Some \<lparr>latitude = 423601 / 10000, longitude = - 710589 / 10000, name = ''Paris''\<rparr>"
  by (simp add: geocode_location_def BOSTON_NEIGHBORHOODS_def contains_def lower_def lower_char_def
     DEFAULT_BOSTON_LAT_def DEFAULT_BOSTON_LON_def)

lemma find_None_list_ex: "find P xs = None \<longleftrightarrow> \<not> list_ex P xs"
  by (induction xs) auto

text \<open>
  Claim C9, as stated, fails: \<open>Paris\<close> contains no key of the neighbourhood table, and
  \<open>geocode_location\<close> returns coordinates for it.
\<close>

theorem geocode_outside_region_not_null:
  "\<not> known_neighborhood ''Paris'' \<and> geocode_location ''Paris'' \<noteq> None"
  using paris_unknown paris_geocoded by simp

lemma roxbury_known: "known_neighborhood ''Roxbury''"
  by code_simp

lemma roxbury_geocoded: "geocode_location ''Roxbury'' =
    Some \<lparr>latitude = 423317 / 10000, longitude = - 710828 / 10000, name = ''Roxbury''\<rparr>"
  by code_simp

lemma back_bay_geocoded: "geocode_location ''near Back Bay station'' =
    Some \<lparr>latitude = 423503 / 10000, longitude = - 710810 / 10000,
          name = ''near Back Bay station''\<rparr>"
  by code_simp

lemma first_match_geocoded:
  assumes "known_neighborhood location_name"
  shows "\<exists>i<length BOSTON_NEIGHBORHOODS.
         contains (lower location_name) (fst (BOSTON_NEIGHBORHOODS ! i)) \<and>
         (\<forall>j<i. \<not> contains (lower location_name) (fst (BOSTON_NEIGHBORHOODS ! j))) \<and>
         geocode_location location_name =
           Some \<lparr>latitude = fst (snd (BOSTON_NEIGHBORHOODS ! i)),
                 longitude = snd (snd (BOSTON_NEIGHBORHOODS ! i)), name = location_name\<rparr>"
proof -
  define P where "P = (\<lambda>(neighborhood, coords :: rat \<times> rat). contains (lower location_name) neighborhood)"
  have P: "P e = contains (lower location_name) (fst e)" for e
    by (simp add: P_def case_prod_beta)
  from assms have "find P BOSTON_NEIGHBORHOODS \<noteq> None"
    by (simp add: known_neighborhood_def find_None_list_ex P_def)
  then obtain e where e: "find P BOSTON_NEIGHBORHOODS = Some e" by blast
  then obtain i where i: "i < length BOSTON_NEIGHBORHOODS" "P (BOSTON_NEIGHBORHOODS ! i)"
      "e = BOSTON_NEIGHBORHOODS ! i" "\<forall>j<i. \<not> P (BOSTON_NEIGHBORHOODS ! j)"
    unfolding find_Some_iff by blast
  have "geocode_location location_name =
      Some \<lparr>latitude = fst (snd e), longitude = snd (snd e), name = location_name\<rparr>"
    using e by (simp add: geocode_location_def Let_def P_def case_prod_beta)
  with i show ?thesis unfolding P by blast
qed

text \<open>
  Claim C9, amended. \<open>geocode_location\<close> never returns \<open>None\<close>. For a place name whose
  lower-case form contains a key of the neighbourhood table it returns the coordinates
  of the first such key in the order of the table, and for every other place name the
  default coordinates of Boston; in both cases with the name as given. So \<open>Roxbury\<close>
  gets the coordinates of Roxbury, \<open>near Back Bay station\<close> those of Back Bay, and
  \<open>Paris\<close> the default.
\<close>

theorem geocode_first_match_or_default:
  "geocode_location location_name \<noteq> None \<and>
   (known_neighborhood location_name \<longrightarrow>
      (\<exists>i<length BOSTON_NEIGHBORHOODS.
         contains (lower location_name) (fst (BOSTON_NEIGHBORHOODS ! i)) \<and>
         (\<forall>j<i. \<not> contains (lower location_name) (fst (BOSTON_NEIGHBORHOODS ! j))) \<and>
         geocode_location location_name =
           Some \<lparr>latitude = fst (snd (BOSTON_NEIGHBORHOODS ! i)),
                 longitude = snd (snd (BOSTON_NEIGHBORHOODS ! i)), name = location_name\<rparr>)) \<and>
   (\<not> known_neighborhood location_name \<longrightarrow>
      geocode_location location_name =
        Some \<lparr>latitude = DEFAULT_BOSTON_LAT, longitude = DEFAULT_BOSTON_LON,
              name = location_name\<rparr>) \<and>
   geocode_location ''Roxbury'' =
     Some \<lparr>latitude = 423317 / 10000, longitude = - 710828 / 10000, name = ''Roxbury''\<rparr> \<and>
   geocode_location ''near Back Bay station'' =
     Some \<lparr>latitude = 423503 / 10000, longitude = - 710810 / 10000,
           name = ''near Back Bay station''\<rparr> \<and>
   geocode_location ''Paris'' =
     Some \<lparr>latitude = 423601 / 10000, longitude = - 710589 / 10000, name = ''Paris''\<rparr>"
proof -
  have 1: "geocode_location location_name \<noteq> None"
    by (simp add: geocode_location_def Let_def split: option.split prod.split)
  have 2: "\<not> known_neighborhood location_name \<longrightarrow>
      geocode_location location_name =
        Some \<lparr>latitude = DEFAULT_BOSTON_LAT, longitude = DEFAULT_BOSTON_LON,
              name = location_name\<rparr>"
  proof
    assume "\<not> known_neighborhood location_name"
    then have "find (\<lambda>(neighborhood, coords). contains (lower location_name) neighborhood)
             BOSTON_NEIGHBORHOODS = None"
      by (simp add: known_neighborhood_def find_None_list_ex)
    then show "geocode_location location_name =
        Some \<lparr>latitude = DEFAULT_BOSTON_LAT, longitude = DEFAULT_BOSTON_LON,
              name = location_name\<rparr>"
      by (simp add: geocode_location_def Let_def)
  qed
  have 3: "known_neighborhood location_name \<longrightarrow>
      (\<exists>i<length BOSTON_NEIGHBORHOODS.
         contains (lower location_name) (fst (BOSTON_NEIGHBORHOODS ! i)) \<and>
         (\<forall>j<i. \<not> contains (lower location_name) (fst (BOSTON_NEIGHBORHOODS ! j))) \<and>
         geocode_location location_name =
           Some \<lparr>latitude = fst (snd (BOSTON_NEIGHBORHOODS ! i)),
                 longitude = snd (snd (BOSTON_NEIGHBORHOODS ! i)), name = location_name\<rparr>)"
    using first_match_geocoded by (rule impI)
  show ?thesis
    by (intro conjI 1 2 3 roxbury_geocoded back_bay_geocoded paris_geocoded)
qed

theorem geocode_first_match_or_default_witness:
  "known_neighborhood ''Roxbury'' \<and>
   (\<exists>i<length BOSTON_NEIGHBORHOODS.
      contains (lower ''Roxbury'') (fst (BOSTON_NEIGHBORHOODS ! i)) \<and>
      geocode_location ''Roxbury'' =
        Some \<lparr>latitude = fst (snd (BOSTON_NEIGHBORHOODS ! i)),
              longitude = snd (snd (BOSTON_NEIGHBORHOODS ! i)), name = ''Roxbury''\<rparr>) \<and>
   \<not> known_neighborhood ''Paris'' \<and>
   geocode_location ''Paris'' =
     Some \<lparr>latitude = DEFAULT_BOSTON_LAT, longitude = DEFAULT_BOSTON_LON, name = ''Paris''\<rparr>"
proof -
  note t = geocode_first_match_or_default[of "''Roxbury''"]
  note u = geocode_first_match_or_default[of "''Paris''"]
  have "\<exists>i<length BOSTON_NEIGHBORHOODS.
      contains (lower ''Roxbury'') (fst (BOSTON_NEIGHBORHOODS ! i)) \<and>
      (\<forall>j<i. \<not> contains (lower ''Roxbury'') (fst (BOSTON_NEIGHBORHOODS ! j))) \<and>
      geocode_location ''Roxbury'' =
        Some \<lparr>latitude = fst (snd (BOSTON_NEIGHBORHOODS ! i)),
              longitude = snd (snd (BOSTON_NEIGHBORHOODS ! i)), name = ''Roxbury''\<rparr>"
    by (rule t[THEN conjunct2, THEN conjunct1, THEN mp, OF roxbury_known])
  then have a: "\<exists>i<length BOSTON_NEIGHBORHOODS.
      contains (lower ''Roxbury'') (fst (BOSTON_NEIGHBORHOODS ! i)) \<and>
      geocode_location ''Roxbury'' =
        Some \<lparr>latitude = fst (snd (BOSTON_NEIGHBORHOODS ! i)),
              longitude = snd (snd (BOSTON_NEIGHBORHOODS ! i)), name = ''Roxbury''\<rparr>"
    by (elim exE conjE) (intro exI conjI; assumption)
  have b: "geocode_location ''Paris'' =
     Some \<lparr>latitude = DEFAULT_BOSTON_LAT, longitude = DEFAULT_BOSTON_LON, name = ''Paris''\<rparr>"
    by (rule u[THEN conjunct2, THEN conjunct2, THEN conjunct1, THEN mp, OF paris_unknown])
  show ?thesis by (intro conjI roxbury_known a paris_unknown b)
qed

subsection \<open>Quotes in the retriever's queries\<close>

lemma quotes_escaped_replace: "quotes_escaped (replace_quote s @ r) = quotes_escaped r"
proof (induction s)
  case Nil
  then show ?case by (simp add: replace_quote_def)
next
  case (Cons c s)
  show ?case
  proof (cases "c = sq")
    case True
    then show ?thesis using Cons by (simp add: replace_quote_def)
  next
    case False
    have "quotes_escaped (c # x) = quotes_escaped x" for x
      using False by (cases x) auto
    then show ?thesis using Cons False by (simp add: replace_quote_def)
  qed
qed

lemma query_literal_escaped: "quotes_escaped (query_literal user_query)"
  using quotes_escaped_replace[of user_query "[]"] by (simp add: query_literal_def)

lemma quotes_escaped_no_quote: "sq \<notin> set w \<Longrightarrow> quotes_escaped w"
  by (induction w rule: quotes_escaped.induct) auto

lemma quotes_escaped_append_no_quote:
  "sq \<notin> set w \<Longrightarrow> quotes_escaped (u @ w) = quotes_escaped u"
proof (induction u rule: quotes_escaped.induct)
  case 1
  then show ?case by (simp add: quotes_escaped_no_quote)
next
  case (2 c)
  then show ?case by (cases w) (auto simp: quotes_escaped_no_quote)
next
  case (3 c d r)
  then show ?case by auto
qed

lemma isspace_not_quote: "isspace c \<Longrightarrow> c \<noteq> sq"
  by (auto simp: isspace_def sq_def)

lemma quotes_escaped_drop_spaces:
  "quotes_escaped (dropWhile isspace s) = quotes_escaped s"
proof (induction s)
  case Nil
  then show ?case by simp
next
  case (Cons c s)
  have "c \<noteq> sq \<Longrightarrow> quotes_escaped (c # x) = quotes_escaped x" for x
    by (cases x) auto
  with Cons show ?case by (auto dest: isspace_not_quote)
qed

lemma quotes_escaped_strip: "quotes_escaped (strip s) = quotes_escaped s"
proof -
  define t where "t = dropWhile isspace s"
  have "rev (rev t) = rev (takeWhile isspace (rev t) @ dropWhile isspace (rev t))"
    by (simp only: takeWhile_dropWhile_id)
  then have "t = rev (dropWhile isspace (rev t)) @ rev (takeWhile isspace (rev t))"
    by (simp only: rev_rev_ident rev_append)
  moreover have "strip s = rev (dropWhile isspace (rev t))"
    by (simp add: strip_def t_def)
  ultimately have t: "t = strip s @ rev (takeWhile isspace (rev t))"
    by simp
  have "sq \<notin> set (rev (takeWhile isspace (rev t)))"
    using isspace_not_quote by (auto dest: set_takeWhileD)
  then have "quotes_escaped (strip s @ rev (takeWhile isspace (rev t))) = quotes_escaped (strip s)"
    by (rule quotes_escaped_append_no_quote)
  with t have "quotes_escaped t = quotes_escaped (strip s)" by simp
  then show ?thesis by (simp add: t_def quotes_escaped_drop_spaces)
qed

lemma location_literal_escaped: "quotes_escaped (location_literal location_name)"
  using quotes_escaped_replace[of location_name "[]"]
  by (simp add: location_literal_def quotes_escaped_strip)

text \<open>
  Claim C8 does not hold of the code for the cuisine. The user's query and the location
  name pass through \<open>replace("'", "''")\<close> before they are put between quotes, so every
  quote in them is doubled. The cuisine is put between quotes as it is: for the cuisine
  \<open>O'Brien\<close> the condition is \<open>AND PRIMARY_CUISINE = 'O'Brien'\<close>, where the quote
  inside the literal is not escaped.
\<close>

theorem cuisine_interpolated_unescaped:
  "cuisine_condition (PStr obrien) = ''AND PRIMARY_CUISINE = '' @ [sq] @ obrien @ [sq] \<and>
   \<not> quotes_escaped (cuisine_literal (PStr obrien)) \<and>
   quotes_escaped (query_literal user_query) \<and>
   quotes_escaped (location_literal location_name) \<and>
   query_literal obrien = ''O'' @ [sq, sq] @ ''Brien''"
proof -
  have 1: "cuisine_condition (PStr obrien) = ''AND PRIMARY_CUISINE = '' @ [sq] @ obrien @ [sq]"
    by (simp add: cuisine_condition_def cuisine_literal_def obrien_def)
  have 2: "\<not> quotes_escaped (cuisine_literal (PStr obrien))"
    by (simp add: cuisine_literal_def obrien_def sq_def)
  have 3: "query_literal obrien = ''O'' @ [sq, sq] @ ''Brien''"
    by (simp add: query_literal_def replace_quote_def obrien_def sq_def)
  show ?thesis
    using 1 2 3 query_literal_escaped[of user_query] location_literal_escaped[of location_name]
    by blast
qed


subsection \<open>Row counts of the retriever and the researcher\<close>

lemma length_keep: "length (rows (keep P df)) \<le> length (rows df)"
  by (simp add: keep_def)

lemma price_filter_le: "length (rows (price_filter max_price df)) \<le> length (rows df)"
  by (simp add: price_filter_def length_keep split: option.split)

lemma safety_filter_le: "length (rows (safety_filter min_safety df)) \<le> length (rows df)"
  by (simp add: safety_filter_def length_keep)

lemma flag_filter_le: "length (rows (flag_filter wanted col df)) \<le> length (rows df)"
  by (simp add: flag_filter_def length_keep)

lemma flag_filter_le_trans:
  "length (rows d) \<le> n \<Longrightarrow> length (rows (flag_filter wanted col d)) \<le> n"
  using flag_filter_le[of wanted col d] by simp

lemma attribute_filter_le: "length (rows (attribute_filter fs df)) \<le> length (rows df)"
  unfolding attribute_filter_def Let_def
  by (intro flag_filter_le_trans order_refl)

lemma length_sort_values [simp]: "length (sort_values key rs) = length rs"
  by (simp add: sort_values_def)

lemma filters_le:
  "length (rows (attribute_filter fs (safety_filter ms (price_filter mp df)))) \<le> length (rows df)"
  using attribute_filter_le[of fs "safety_filter ms (price_filter mp df)"]
    safety_filter_le[of ms "price_filter mp df"] price_filter_le[of mp df]
  by simp

lemma researcher_le:
  "safe_len (data (researcher_agent (Some m) mp ms fs)) \<le> safe_len (data m)"
proof (cases "data m")
  case None
  then show ?thesis
    by (simp add: researcher_agent_def is_successful_def failed_msg_def safe_len_def)
next
  case (Some df)
  show ?thesis
    using filters_le[of fs ms mp df] Some
    by (simp add: researcher_agent_def failed_msg_def safe_len_def Let_def)
qed

lemma filter_distinct_le1:
  "distinct (map f xs) \<Longrightarrow> length (filter (\<lambda>d. f d = a) xs) \<le> 1"
proof (induction xs)
  case Nil
  then show ?case by simp
next
  case (Cons x xs)
  show ?case
  proof (cases "f x = a")
    case True
    with Cons.prems have "a \<notin> f ` set xs" by auto
    then have "filter (\<lambda>d. f d = a) xs = []" by (auto simp: filter_empty_conv)
    with True show ?thesis by simp
  next
    case False
    with Cons show ?thesis by simp
  qed
qed

lemma merge_rows_length:
  assumes "distinct (map RESTAURANT_ID ds)"
  shows "length (merge_rows ls ds) = length ls"
proof -
  have one: "length (case filter (\<lambda>d. RESTAURANT_ID d = RESTAURANT_ID l) ds of
                         [] \<Rightarrow> [unmatched_row l]
                       | m # ms \<Rightarrow> map (merge_row l) (m # ms)) = 1" for l
    using filter_distinct_le1[OF assms, of "RESTAURANT_ID l"]
    by (cases "filter (\<lambda>d. RESTAURANT_ID d = RESTAURANT_ID l) ds") auto
  show ?thesis
    unfolding merge_rows_def
    by (induction ls) (simp_all add: one del: list.case)
qed

lemma run_search_le:
  "run_search st top_k = Some found \<Longrightarrow> int (length found) \<le> top_k"
  by (auto simp: run_search_def split: option.splits if_splits)

lemma enriched_length:
  assumes "\<forall>ms. master_rows st = Some ms \<longrightarrow> distinct (map RESTAURANT_ID ms)"
  shows "length (rows (case run_detail st ids of
                            None \<Rightarrow> \<lparr>columns = cs, rows = found\<rparr>
                          | Some detail_rows \<Rightarrow> merge_left \<lparr>columns = cs, rows = found\<rparr> detail_rows))
         = length found"
proof (cases "master_rows st")
  case None
  then show ?thesis by (simp add: run_detail_def)
next
  case (Some ms)
  with assms have "distinct (map RESTAURANT_ID ms)" by simp
  then have "distinct (map RESTAURANT_ID (filter (\<lambda>d. RESTAURANT_ID d \<in> set ids) ms))"
    by (rule distinct_map_filter)
  then show ?thesis
    using Some by (simp add: run_detail_def merge_left_def merge_rows_length)
qed

lemma retriever_le:
  assumes m: "\<forall>ms. master_rows st = Some ms \<longrightarrow> distinct (map RESTAURANT_ID ms)"
    and k: "0 \<le> top_k"
  shows "int (safe_len (data (retriever_agent st ad ul sa top_k))) \<le> top_k"
proof -
  have f: "int (safe_len (data (failed_msg ''Retriever''))) \<le> top_k"
    using k by (simp add: failed_msg_def safe_len_def)
  show ?thesis
  proof (cases "resolve_location ad sa")
    case (Inl e)
    then show ?thesis using f by (simp add: retriever_agent_def)
  next
    case (Inr p)
    obtain location_name location_mode where p: "p = (location_name, location_mode)"
      by (cases p)
    show ?thesis
    proof (cases "truthy location_name \<and> \<not> is_str location_name")
      case True
      then show ?thesis using f Inr p by (simp add: retriever_agent_def)
    next
      case nb: False
      show ?thesis
      proof (cases "run_search st top_k")
        case None
        then show ?thesis using f Inr p nb by (simp add: retriever_agent_def)
      next
        case (Some found)
        note le = run_search_le[OF Some]
        note en = enriched_length[OF m, where ids = "map RESTAURANT_ID found" and cs = search_columns
          and found = found]
        show ?thesis
        proof (cases "found = []")
          case True
          then show ?thesis using f Inr p nb Some by (simp add: retriever_agent_def)
        next
          case False
          then show ?thesis
            using f Inr p nb Some le en
            by (simp add: retriever_agent_def Let_def safe_len_def failed_msg_def split: option.split)
        qed
      qed
    qed
  qed
qed


lemma duplicate_rows: "safe_len (data (retriever_agent duplicate_store [] None None 1)) = 2"
  by (simp add: retriever_agent_def resolve_location_def get_default_def dict_get_def
      run_search_def run_detail_def duplicate_store_def merge_left_def merge_rows_def
      tier_row_def safe_len_def Let_def)

text \<open>
  Claim C7, as stated, fails at the enrichment. The left merge returns a row of the search
  result once for every row of the master table with the same identity: with a limit of
  1, one hit and two master rows for that restaurant, the retriever returns two rows.
\<close>

theorem enrichment_exceeds_limit:
  "\<not> int (safe_len (data (retriever_agent duplicate_store [] None None 1))) \<le> 1"
  unfolding duplicate_rows by simp

text \<open>
  Claim C7, amended. The researcher never returns more rows than the retriever gave it
  (a message without payload counts as no rows). The retriever returns at most \<open>top_k\<close>
  rows when \<open>top_k\<close> is not negative and the master table holds at most one row for each
  restaurant identity, also when the enrichment query fails.
\<close>

theorem row_count_non_increasing:
  "safe_len (data (researcher_agent (Some (retriever_agent st analyst_data user_location
       search_area top_k)) max_price min_safety filters))
     \<le> safe_len (data (retriever_agent st analyst_data user_location search_area top_k)) \<and>
   (0 \<le> top_k \<and> (\<forall>ms. master_rows st = Some ms \<longrightarrow> distinct (map RESTAURANT_ID ms)) \<longrightarrow>
      int (safe_len (data (retriever_agent st analyst_data user_location search_area top_k)))
        \<le> top_k)"
  using researcher_le retriever_le by blast

lemma unique_store_distinct:
  "\<forall>ms. master_rows unique_store = Some ms \<longrightarrow> distinct (map RESTAURANT_ID ms)"
  by (simp add: unique_store_def tier_row_def)

lemma unique_rows: "safe_len (data (retriever_agent unique_store [] None None 2)) = 2"
  by (simp add: retriever_agent_def resolve_location_def get_default_def dict_get_def
      run_search_def run_detail_def unique_store_def merge_left_def merge_rows_def
      tier_row_def safe_len_def Let_def)

theorem row_count_non_increasing_witness:
  "safe_len (data (researcher_agent (Some (retriever_agent unique_store [] None None 2))
       (PInt 1) 0 None)) \<le> 2 \<and>
   int (safe_len (data (retriever_agent unique_store [] None None 2))) \<le> 2"
  using row_count_non_increasing[of unique_store "[]" None None 2 "PInt 1" 0 None]
    unique_store_distinct
  unfolding unique_rows by simp

subsection \<open>The price filter\<close>

lemma tiers_prices:
  "map PRICE_LEVEL (rows tiers_frame) = map Some [1, 2, 3, 4, 2, 1, 3, 4, 2, 1]"
  by (simp add: tiers_frame_def tier_row_def)

lemma tiers_filtered:
  "rows (price_filter (PInt 2) tiers_frame) =
     [tier_row ''r0'' 1, tier_row ''r1'' 2, tier_row ''r4'' 2, tier_row ''r5'' 1,
      tier_row ''r8'' 2, tier_row ''r9'' 1]"
  by (simp add: price_filter_def keep_def tiers_frame_def tier_row_def search_columns_def)

text \<open>
  Claim C3, as stated, fails on its count: of the tiers 1, 2, 3, 4, 2, 1, 3, 4, 2, 1 six
  are at most 2, and the price filter leaves six rows, not five.
\<close>

theorem price_filter_leaves_six_not_five:
  "map PRICE_LEVEL (rows tiers_frame) = map Some [1, 2, 3, 4, 2, 1, 3, 4, 2, 1] \<and>
   length (rows (price_filter (PInt 2) tiers_frame)) \<noteq> 5"
  using tiers_prices unfolding tiers_filtered by simp

text \<open>
  Claim C3, amended. On a frame with the column \<open>PRICE_LEVEL\<close> and ten rows with the
  price tiers 1, 2, 3, 4, 2, 1, 3, 4, 2, 1, the price filter with \<open>max_price = 2\<close> (as a
  number or as the string \<open>2\<close>) leaves exactly the six rows whose tier is at most 2, the
  first, second, fifth, sixth, ninth and tenth, in their original order, and the columns
  as they were.
\<close>

theorem price_filter_keeps_order:
  assumes "''PRICE_LEVEL'' \<in> set (columns df)"
    and "rows df = [r0, r1, r2, r3, r4, r5, r6, r7, r8, r9]"
    and "map PRICE_LEVEL (rows df) = map Some [1, 2, 3, 4, 2, 1, 3, 4, 2, 1]"
  shows "rows (price_filter (PInt 2) df) = [r0, r1, r4, r5, r8, r9] \<and>
         rows (price_filter (PStr ''2'') df) = [r0, r1, r4, r5, r8, r9] \<and>
         length (rows (price_filter (PInt 2) df)) = 6 \<and>
         columns (price_filter (PInt 2) df) = columns df"
proof -
  have two: "int_of_str ''2'' = Some 2" by code_simp
  show ?thesis
    using assms by (simp add: price_filter_def keep_def two)
qed

theorem price_filter_keeps_order_witness:
  "rows (price_filter (PInt 2) tiers_frame) =
     [tier_row ''r0'' 1, tier_row ''r1'' 2, tier_row ''r4'' 2, tier_row ''r5'' 1,
      tier_row ''r8'' 2, tier_row ''r9'' 1] \<and>
   length (rows (price_filter (PInt 2) tiers_frame)) = 6"
proof -
  have c: "''PRICE_LEVEL'' \<in> set (columns tiers_frame)"
    by (simp add: tiers_frame_def search_columns_def)
  have r: "rows tiers_frame = [tier_row ''r0'' 1, tier_row ''r1'' 2, tier_row ''r2'' 3,
      tier_row ''r3'' 4, tier_row ''r4'' 2, tier_row ''r5'' 1, tier_row ''r6'' 3,
      tier_row ''r7'' 4, tier_row ''r8'' 2, tier_row ''r9'' 1]"
    by (simp add: tiers_frame_def)
  from price_filter_keeps_order[OF c r tiers_prices] show ?thesis by blast
qed


end
